theory Spec2Isabelle
  imports Main
begin

section \<open>The pooled data allocator of base/DataAllocator.cpp\<close>

text \<open>
  The allocator carves blocks of machine words out of fixed-size pools (\<open>Pool_t\<close>),
  keeps released blocks on intrusive free lists indexed by their size in words, and
  extends the chain of pools when the current one is exhausted. The development embeds
  \<open>arch_size\<close>, the constructor, \<open>allocate\<close>, \<open>deallocate\<close>, \<open>reset\<close>, \<open>hasInPools\<close>,
  the figures of \<open>printStats\<close> and the four C wrappers.
\<close>

subsection \<open>Build configuration\<close>

text \<open>
  \<open>arch_size\<close> distinguishes \<open>sizeof(uintptr_t) == 8\<close> from \<open>sizeof(uintptr_t) == 4\<close>; any
  other width is rejected when the file is compiled, so the architecture is a type with
  these two values. \<open>debug\<close> says that \<open>NDEBUG\<close> is not defined: it switches on
  \<open>DEBUG_OFFSET\<close>, \<open>DODEBUG\<close>, \<open>ASSERT\<close> and \<open>assert\<close> together. \<open>CHUNK_SIZE\<close> is
  declared in base/DataAllocator.h, which is not among the sources; it is a parameter.
\<close>

datatype arch = Arch32 | Arch64

record config =
  arch :: arch
  debug :: bool
  CHUNK_SIZE :: nat

definition word_bits :: "config \<Rightarrow> nat" where
  "word_bits cfg = (case arch cfg of Arch32 \<Rightarrow> 32 | Arch64 \<Rightarrow> 64)"

definition word_bytes :: "config \<Rightarrow> nat" where
  "word_bytes cfg = (case arch cfg of Arch32 \<Rightarrow> 4 | Arch64 \<Rightarrow> 8)"

definition DEBUG_OFFSET :: "config \<Rightarrow> nat" where
  "DEBUG_OFFSET cfg = (if debug cfg then 1 else 0)"

text \<open>\<open>size_t\<close> arithmetic wraps at the width of the machine word.\<close>

definition arch_size :: "config \<Rightarrow> nat \<Rightarrow> nat" where
  "arch_size cfg I =
     (case arch cfg of
        Arch64 \<Rightarrow> ((I + 1) mod 2 ^ 64) div 2
      | Arch32 \<Rightarrow> I)"

definition size_plus :: "config \<Rightarrow> nat \<Rightarrow> nat \<Rightarrow> nat" where
  "size_plus cfg a b = (a + b) mod 2 ^ word_bits cfg"

subsection \<open>Machine words, pointers and the free store\<close>

text \<open>
  A \<open>uintptr_t\<close> holds either a plain number or the bit pattern of a pointer, and the
  code converts freely between \<open>uintptr_t\<close> and \<open>uintptr_t*\<close>. Both are values of one
  type: \<open>Num n\<close> is the integer \<open>n\<close> (\<open>Num 0\<close> is also the null pointer), and
  \<open>Addr c i\<close> is the address of word \<open>i\<close> of the \<open>mem\<close> array of the pool object \<open>c\<close>.
  \<open>pool->mem\<close> is \<open>Addr pool 0\<close> and \<open>pool->end\<close> is \<open>Addr pool CHUNK_SIZE\<close>.
\<close>

datatype uintptr = Num nat | Addr nat int

text \<open>
  Modelled from the spec: the macros \<open>ASSERT\<close> and \<open>DODEBUG\<close> come from debug/macros.h,
  which is not among the sources. As the specification describes the debug
  instrumentation, \<open>ASSERT(cond, action)\<close> and \<open>assert(cond)\<close> abort the program when the
  condition fails, \<open>DODEBUG(stmt)\<close> runs its statement, and all of them are compiled in
  the debug configuration only. The error of a failed assertion names its line in
  DataAllocator.cpp; \<open>Undefined\<close> is an access through a pointer that has no cell, and
  \<open>BadArrayNewLength\<close> is the exception \<open>std::bad_array_new_length\<close> of an array
  \<open>new\<close>-expression.
\<close>

datatype error = AssertFailed nat | Undefined | BadArrayNewLength

definition nullptr :: uintptr where
  "nullptr = Num 0"

text \<open>
  Modelled from the spec: \<open>Pool_t\<close> is declared in base/DataAllocator.h, which is not among
  the sources. A pool is a contiguous array \<open>mem\<close> of \<open>CHUNK_SIZE\<close> words, the sentinel \<open>end\<close>
  one past its last word, and a link \<open>next\<close> to its successor in the chain.
\<close>

definition pool_mem :: "nat \<Rightarrow> uintptr" where
  "pool_mem pool = Addr pool 0"

definition pool_end :: "config \<Rightarrow> nat \<Rightarrow> uintptr" where
  "pool_end cfg pool = Addr pool (int (CHUNK_SIZE cfg))"

text \<open>Pointer arithmetic in units of one word; on an integer-valued pointer it moves
  the byte address and wraps.\<close>

definition ptr_add :: "config \<Rightarrow> uintptr \<Rightarrow> int \<Rightarrow> uintptr" where
  "ptr_add cfg p k =
     (case p of
        Addr c i \<Rightarrow> Addr c (i + k)
      | Num n \<Rightarrow> Num (nat ((int n + k * int (word_bytes cfg)) mod 2 ^ word_bits cfg)))"

text \<open>
  \<open>p <= q\<close> and \<open>q - p\<close> have a meaning for two addresses inside one pool (or two plain
  numbers); for unrelated pointers the language leaves the result open, and the model
  answers \<open>None\<close>.
\<close>

definition ptr_le :: "uintptr \<Rightarrow> uintptr \<Rightarrow> bool option" where
  "ptr_le p q =
     (case (p, q) of
        (Addr c i, Addr d j) \<Rightarrow> if c = d then Some (i \<le> j) else None
      | (Num n, Num m) \<Rightarrow> Some (n \<le> m)
      | _ \<Rightarrow> None)"

definition ptr_diff :: "config \<Rightarrow> uintptr \<Rightarrow> uintptr \<Rightarrow> int option" where
  "ptr_diff cfg q p =
     (case (q, p) of
        (Addr d j, Addr c i) \<Rightarrow> if c = d then Some (j - i) else None
      | (Num m, Num n) \<Rightarrow> Some ((int m - int n) div int (word_bytes cfg))
      | _ \<Rightarrow> None)"

text \<open>\<open>lo <= data && data < hi\<close> for the bounds \<open>lo\<close>, \<open>hi\<close> of one array: the range
  test of \<open>hasInPools\<close>, false for an address in another pool.\<close>

definition within :: "uintptr \<Rightarrow> uintptr \<Rightarrow> uintptr \<Rightarrow> bool" where
  "within data lo hi =
     (case (data, lo, hi) of
        (Addr c i, Addr l a, Addr h b) \<Rightarrow> c = l \<and> c = h \<and> a \<le> i \<and> i < b
      | _ \<Rightarrow> False)"

text \<open>
  The C++ free store: objects are numbered in the order \<open>new\<close> creates them, \<open>live\<close>
  holds the objects created and not yet deleted, \<open>pool_next\<close> is the \<open>next\<close> field of
  each pool object and \<open>mem\<close> the contents of the pools' word arrays. \<open>new\<close> is taken
  to succeed (a failure throws and ends the program) and initialises nothing.
\<close>

record heap =
  created :: nat
  live :: "nat set"
  pool_next :: "nat \<Rightarrow> nat option"
  mem :: "nat \<times> int \<Rightarrow> uintptr"

definition new_object :: "'a heap_scheme \<Rightarrow> nat \<times> 'a heap_scheme" where
  "new_object h = (created h, h\<lparr>created := Suc (created h), live := insert (created h) (live h)\<rparr>)"

definition delete_object :: "nat \<Rightarrow> 'a heap_scheme \<Rightarrow> 'a heap_scheme" where
  "delete_object c h = h\<lparr>live := live h - {c}\<rparr>"

text \<open>
  Reading and writing through a pointer. A null or integer-valued pointer has no cell
  behind it. Every address \<open>Addr c i\<close> has one, also beyond the bounds of the array and
  after the pool is deleted: the source checks neither, and the statements below say
  where the addresses they are about lie.
\<close>

definition load :: "'a heap_scheme \<Rightarrow> uintptr \<Rightarrow> error + uintptr" where
  "load h p = (case p of Addr c i \<Rightarrow> Inr (mem h (c, i)) | Num n \<Rightarrow> Inl Undefined)"

definition store :: "'a heap_scheme \<Rightarrow> uintptr \<Rightarrow> uintptr \<Rightarrow> error + 'a heap_scheme" where
  "store h p v =
     (case p of
        Addr c i \<Rightarrow> Inr (h\<lparr>mem := (mem h)((c, i) := v)\<rparr>)
      | Num n \<Rightarrow> Inl Undefined)"

subsection \<open>The free-list table\<close>

text \<open>
  Modelled from the spec: \<open>array_t\<close> (base/array_t.h) is not among the sources. The
  table maps a size class to the head of its list, null when empty; \<open>get\<close> reads a
  class, \<open>operator[]\<close> and \<open>replace\<close> write one (\<open>replace\<close> returns the previous head),
  \<open>reset\<close> clears every class and \<open>size\<close> is the number of classes tracked. A class
  beyond the tracked ones reads as empty and is added by a write; growing the table is
  taken to succeed.
\<close>

definition array_get :: "uintptr list \<Rightarrow> nat \<Rightarrow> uintptr" where
  "array_get xs i = (if i < length xs then xs ! i else Num 0)"

definition array_set :: "uintptr list \<Rightarrow> nat \<Rightarrow> uintptr \<Rightarrow> uintptr list" where
  "array_set xs i v = (xs @ replicate (Suc i - length xs) (Num 0))[i := v]"

definition array_replace :: "uintptr list \<Rightarrow> nat \<Rightarrow> uintptr \<Rightarrow> uintptr \<times> uintptr list" where
  "array_replace xs i v = (array_get xs i, array_set xs i v)"

definition array_reset :: "uintptr list \<Rightarrow> uintptr list" where
  "array_reset xs = replicate (length xs) (Num 0)"

text \<open>
  Modelled from the spec: \<open>getNext\<close> is declared in the absent header; it converts
  between a stored word and a link, both of which are machine words here.
\<close>

definition getNext :: "uintptr \<Rightarrow> uintptr" where
  "getNext w = w"

subsection \<open>The allocator\<close>

text \<open>
  \<open>memPool\<close> is the current pool, the head of the chain linked through \<open>next\<close>;
  \<open>freePtr\<close> and \<open>endFree\<close> are the bump cursor and the end of the current pool. The
  constructor leaves \<open>memPool\<close> non-null and nothing ever nulls it, so the field holds a
  pool and the \<open>assert(memPool)\<close> of the source has no failing branch.
\<close>

record DataAllocator = heap +
  memPool :: nat
  freePtr :: uintptr
  endFree :: uintptr
  freeMem :: "uintptr list"

text \<open>The constructor, lines 46 to 55: one pool, no successor, the cursor at its start,
  a table of 145 empty classes.\<close>

definition DataAllocator_new :: "config \<Rightarrow> heap \<Rightarrow> DataAllocator" where
  "DataAllocator_new cfg h =
     (let (p, h1) = new_object h
      in \<lparr>created = created h1, live = live h1,
          pool_next = (pool_next h1)(p := None), mem = mem h1,
          memPool = p, freePtr = pool_mem p, endFree = pool_end cfg p,
          freeMem = replicate 145 (Num 0)\<rparr>)"

text \<open>
  \<open>allocate\<close>, lines 76 to 125. The three sources of memory are tried in the order of
  the source text: the free list of the size class, the space left in the current pool,
  a new pool. \<open>allocate_reuse\<close> is the body of \<open>if (data)\<close>, \<open>allocate_extend\<close> the text
  from "store memory left from the pool" to the end. \<open>CHECK_ALIGNED32(newPool)\<close> tests the
  byte address of an object that \<open>new\<close> returns, which is aligned for its type; byte
  addresses are not part of the model and the check has no failing branch.
\<close>

definition allocate_reuse ::
  "config \<Rightarrow> DataAllocator \<Rightarrow> nat \<Rightarrow> uintptr \<Rightarrow> error + (uintptr \<times> DataAllocator)" where
  "allocate_reuse cfg st intSize data =
     (case load st data of
        Inl e \<Rightarrow> Inl e
      | Inr w \<Rightarrow>
          let st1 = st\<lparr>freeMem := array_set (freeMem st) intSize (getNext w)\<rparr>
          in (case (if debug cfg then store st1 data (Num intSize) else Inr st1) of
                Inl e \<Rightarrow> Inl e
              | Inr st2 \<Rightarrow> Inr (ptr_add cfg data (int (DEBUG_OFFSET cfg)), st2)))"

definition allocate_extend ::
  "config \<Rightarrow> DataAllocator \<Rightarrow> nat \<Rightarrow> uintptr \<Rightarrow> error + (uintptr \<times> DataAllocator)" where
  "allocate_extend cfg st intSize data =
     (case ptr_diff cfg (endFree st) data of
        None \<Rightarrow> Inl Undefined
      | Some d \<Rightarrow>
          let memLeft = nat (d mod 2 ^ 32)
          in (case (if memLeft \<noteq> 0
                    then (let (old, fm) = array_replace (freeMem st) (arch_size cfg memLeft) data
                          in store (st\<lparr>freeMem := fm\<rparr>) data (getNext old))
                    else Inr st) of
                Inl e \<Rightarrow> Inl e
              | Inr st1 \<Rightarrow>
                  (let (newPool, st2) = new_object st1;
                       st3 = st2\<lparr>pool_next := (pool_next st2)(newPool := Some (memPool st2))\<rparr>;
                       st4 = st3\<lparr>memPool := newPool\<rparr>;
                       data' = pool_mem newPool;
                       st5 = st4\<lparr>freePtr := ptr_add cfg data' (int intSize)\<rparr>;
                       st6 = st5\<lparr>endFree := pool_end cfg newPool\<rparr>
                   in (case (if debug cfg then store st6 data' (Num intSize) else Inr st6) of
                         Inl e \<Rightarrow> Inl e
                       | Inr st7 \<Rightarrow> Inr (ptr_add cfg data' (int (DEBUG_OFFSET cfg)), st7)))))"

definition allocate :: "config \<Rightarrow> DataAllocator \<Rightarrow> nat \<Rightarrow> error + (uintptr \<times> DataAllocator)" where
  "allocate cfg st size0 =
     (if debug cfg \<and> \<not> size0 \<le> CHUNK_SIZE cfg then Inl (AssertFailed 78)
      else if size0 = 0 then Inr (nullptr, st)
      else
        let intSize = size_plus cfg (arch_size cfg size0) (DEBUG_OFFSET cfg);
            data = array_get (freeMem st) intSize
        in if data \<noteq> nullptr then allocate_reuse cfg st intSize data
           else
             let data = freePtr st;
                 st1 = st\<lparr>freePtr := ptr_add cfg (freePtr st) (int intSize)\<rparr>
             in (case ptr_le (freePtr st1) (endFree st1) of
                   None \<Rightarrow> Inl Undefined
                 | Some True \<Rightarrow>
                     (case (if debug cfg then store st1 data (Num intSize) else Inr st1) of
                        Inl e \<Rightarrow> Inl e
                      | Inr st2 \<Rightarrow> Inr (ptr_add cfg data (int (DEBUG_OFFSET cfg)), st2))
                 | Some False \<Rightarrow> allocate_extend cfg st1 intSize data))"

text \<open>
  \<open>hasInPools\<close>, lines 226 to 250. Its two loops follow links stored in memory and end
  only when they reach a null link; a chain that never reaches one makes them run
  forever, which is the value \<open>None\<close>.
\<close>

partial_function (option) hasInPools_pools ::
  "config \<Rightarrow> DataAllocator \<Rightarrow> uintptr \<Rightarrow> nat option \<Rightarrow> bool option" where
  "hasInPools_pools cfg st data pool =
     (if pool = None then Some False
      else if within data (pool_mem (the pool)) (pool_end cfg (the pool)) then Some True
      else hasInPools_pools cfg st data (pool_next st (the pool)))"

partial_function (option) hasInPools_free ::
  "DataAllocator \<Rightarrow> uintptr \<Rightarrow> uintptr \<Rightarrow> (error + bool) option" where
  "hasInPools_free st data fdata =
     (if fdata = nullptr then Some (Inr True)
      else if data = fdata then Some (Inr False)
      else (case load st fdata of
              Inl e \<Rightarrow> Some (Inl e)
            | Inr w \<Rightarrow> hasInPools_free st data (getNext w)))"

declare hasInPools_pools.simps [code]
declare hasInPools_free.simps [code]

definition hasInPools :: "config \<Rightarrow> DataAllocator \<Rightarrow> uintptr \<Rightarrow> nat \<Rightarrow> (error + bool) option" where
  "hasInPools cfg st data intSize =
     (case (if within data (pool_mem (memPool st)) (freePtr st) then Some True
            else hasInPools_pools cfg st data (pool_next st (memPool st))) of
        None \<Rightarrow> None
      | Some inPool \<Rightarrow>
          if \<not> inPool then Some (Inr False)
          else hasInPools_free st data (array_get (freeMem st) intSize))"

text \<open>
  \<open>deallocate\<close>, lines 129 to 151. The three \<open>assert\<close>s are compiled in the debug
  configuration only; a failed one aborts.
\<close>

definition deallocate_body :: "config \<Rightarrow> DataAllocator \<Rightarrow> uintptr \<Rightarrow> nat \<Rightarrow> error + DataAllocator" where
  "deallocate_body cfg st data intSize =
     (if ptr_add cfg data (int intSize) = freePtr st then Inr (st\<lparr>freePtr := data\<rparr>)
      else (let (old, fm) = array_replace (freeMem st) intSize data
            in store (st\<lparr>freeMem := fm\<rparr>) data (getNext old)))"

definition deallocate :: "config \<Rightarrow> DataAllocator \<Rightarrow> uintptr \<Rightarrow> nat \<Rightarrow> (error + DataAllocator) option" where
  "deallocate cfg st ptr size0 =
     (if size0 \<noteq> 0 then
        let data = ptr_add cfg ptr (- int (DEBUG_OFFSET cfg));
            intSize = size_plus cfg (arch_size cfg size0) (DEBUG_OFFSET cfg)
        in if \<not> debug cfg then Some (deallocate_body cfg st data intSize)
           else
             (case load st data of
                Inl e \<Rightarrow> Some (Inl e)
              | Inr w \<Rightarrow>
                  if w \<noteq> Num intSize then Some (Inl (AssertFailed 136))
                  else
                    (case hasInPools cfg st data intSize of
                       None \<Rightarrow> None
                     | Some (Inl e) \<Rightarrow> Some (Inl e)
                     | Some (Inr False) \<Rightarrow> Some (Inl (AssertFailed 137))
                     | Some (Inr True) \<Rightarrow>
                         (case deallocate_body cfg st data intSize of
                            Inl e \<Rightarrow> Some (Inl e)
                          | Inr st1 \<Rightarrow>
                              (case hasInPools cfg st1 data intSize of
                                 None \<Rightarrow> None
                               | Some (Inl e) \<Rightarrow> Some (Inl e)
                               | Some (Inr True) \<Rightarrow> Some (Inl (AssertFailed 149))
                               | Some (Inr False) \<Rightarrow> Some (Inr st1)))))
      else Some (Inr st))"

text \<open>
  \<open>reset\<close>, lines 155 to 171, statement by statement: the \<open>next\<close> field of the current
  pool is cleared, the cursor is moved to the start of the current pool, the loop
  deletes the pools from \<open>memPool->next\<close> on, and the table is cleared. The loop reads a
  pool's \<open>next\<close> before it deletes the pool.
\<close>

partial_function (option) reset_loop :: "DataAllocator \<Rightarrow> nat option \<Rightarrow> DataAllocator option" where
  "reset_loop st pool =
     (case pool of
        None \<Rightarrow> Some st
      | Some p \<Rightarrow> reset_loop (delete_object p st) (pool_next st p))"

declare reset_loop.simps [code]

definition reset :: "config \<Rightarrow> DataAllocator \<Rightarrow> DataAllocator option" where
  "reset cfg st =
     (let st1 = st\<lparr>pool_next := (pool_next st)(memPool st := None)\<rparr>;
          st2 = st1\<lparr>freePtr := pool_mem (memPool st1)\<rparr>;
          st3 = st2\<lparr>endFree := pool_end cfg (memPool st2)\<rparr>
      in (case reset_loop st3 (pool_next st3 (memPool st3)) of
            None \<Rightarrow> None
          | Some st4 \<Rightarrow> Some (st4\<lparr>freeMem := array_reset (freeMem st4)\<rparr>)))"

text \<open>
  The destructor, lines 59 to 68: a do-while loop that deletes the current pool and
  every pool its \<open>next\<close> links lead to.
\<close>

partial_function (option) DataAllocator_delete_loop :: "DataAllocator \<Rightarrow> nat \<Rightarrow> DataAllocator option" where
  "DataAllocator_delete_loop st pool =
     (case pool_next st pool of
        None \<Rightarrow> Some (delete_object pool st)
      | Some nxt \<Rightarrow> DataAllocator_delete_loop (delete_object pool st) nxt)"

declare DataAllocator_delete_loop.simps [code]

definition DataAllocator_delete :: "DataAllocator \<Rightarrow> DataAllocator option" where
  "DataAllocator_delete st = DataAllocator_delete_loop st (memPool st)"

text \<open>
  \<open>printStats\<close>, lines 188 to 222: the four figures it prints, without the text around
  them and without the table of per-class totals. \<open>nbPools\<close> and \<open>memInFreeList\<close> are
  \<open>uint32_t\<close> counters, and \<open>DataAllocator_printMem\<close> takes each figure as a \<open>uint32_t\<close>.
  The figures count four bytes a word (\<open>sizeof(uint32_t)\<close>) on either architecture.
\<close>

partial_function (option) printStats_pools :: "DataAllocator \<Rightarrow> nat option \<Rightarrow> nat \<Rightarrow> nat option" where
  "printStats_pools st pool nbPools =
     (case pool of
        None \<Rightarrow> Some nbPools
      | Some p \<Rightarrow> printStats_pools st (pool_next st p) ((nbPools + 1) mod 2 ^ 32))"

partial_function (option) printStats_list ::
  "DataAllocator \<Rightarrow> nat \<Rightarrow> uintptr \<times> nat \<Rightarrow> (error + nat) option" where
  "printStats_list st i fm =
     (if fst fm = nullptr then Some (Inr (snd fm))
      else (case load st (fst fm) of
              Inl e \<Rightarrow> Some (Inl e)
            | Inr w \<Rightarrow> printStats_list st i (getNext w, (snd fm + i) mod 2 ^ 32)))"

declare printStats_pools.simps [code]
declare printStats_list.simps [code]

fun printStats_classes :: "DataAllocator \<Rightarrow> nat list \<Rightarrow> nat \<Rightarrow> (error + nat) option" where
  "printStats_classes st [] memInFreeList = Some (Inr memInFreeList)"
| "printStats_classes st (i # rest) memInFreeList =
     (case printStats_list st i (array_get (freeMem st) i, memInFreeList) of
        None \<Rightarrow> None
      | Some (Inl e) \<Rightarrow> Some (Inl e)
      | Some (Inr m) \<Rightarrow> printStats_classes st rest m)"

record stats =
  pools_allocated :: nat
  total_memory :: nat
  memory_allocated :: nat
  available_in_current_pool :: nat
  deallocated_available :: nat

definition printStats :: "config \<Rightarrow> DataAllocator \<Rightarrow> (error + stats) option" where
  "printStats cfg st =
     (case printStats_pools st (Some (memPool st)) 0 of
        None \<Rightarrow> None
      | Some nbPools \<Rightarrow>
          (case printStats_classes st [0..<length (freeMem st) mod 2 ^ 32] 0 of
             None \<Rightarrow> None
           | Some (Inl e) \<Rightarrow> Some (Inl e)
           | Some (Inr memInFreeList) \<Rightarrow>
               (case (ptr_diff cfg (ptr_add cfg (endFree st) (int memInFreeList)) (freePtr st),
                      ptr_diff cfg (endFree st) (freePtr st)) of
                  (Some free_words, Some tail_words) \<Rightarrow>
                    Some (Inr \<lparr>pools_allocated = nbPools,
                       total_memory = (nbPools * (4 * CHUNK_SIZE cfg)) mod 2 ^ 32,
                       memory_allocated =
                         nat ((int nbPools * (4 * int (CHUNK_SIZE cfg)) - free_words * 4) mod 2 ^ 32),
                       available_in_current_pool = nat ((tail_words * 4) mod 2 ^ 32),
                       deallocated_available = (memInFreeList * 4) mod 2 ^ 32\<rparr>)
                | _ \<Rightarrow> Some (Inl Undefined))))"

subsection \<open>The C wrappers\<close>

text \<open>
  \<open>base_allocate\<close> and \<open>base_deallocate\<close> forward to the allocator they are given.
  \<open>base_new\<close> is \<open>new int32_t[size]\<close>: when the size of the array in bytes, \<open>4 * size\<close>,
  is not a value of \<open>size_t\<close> the expression throws \<open>std::bad_array_new_length\<close>;
  otherwise it creates a new array object, for every size, zero included, and returns
  its address. \<open>base_delete\<close> is \<open>delete[]\<close>, which does nothing for a null pointer and
  is defined only for the address of a live array.
\<close>

definition base_allocate :: "config \<Rightarrow> nat \<Rightarrow> DataAllocator \<Rightarrow> error + (uintptr \<times> DataAllocator)" where
  "base_allocate cfg size0 allocator = allocate cfg allocator size0"

definition base_deallocate ::
  "config \<Rightarrow> uintptr \<Rightarrow> nat \<Rightarrow> DataAllocator \<Rightarrow> (error + DataAllocator) option" where
  "base_deallocate cfg m intSize allocator = deallocate cfg allocator m intSize"

definition base_new :: "config \<Rightarrow> nat \<Rightarrow> heap \<Rightarrow> error + (uintptr \<times> heap)" where
  "base_new cfg size0 h =
     (if \<not> 4 * size0 < 2 ^ word_bits cfg then Inl BadArrayNewLength
      else (let (p, h1) = new_object h in Inr (Addr p 0, h1)))"

definition base_delete :: "uintptr \<Rightarrow> nat \<Rightarrow> heap \<Rightarrow> error + heap" where
  "base_delete m unused1 h =
     (if m = nullptr then Inr h
      else (case m of
              Addr c i \<Rightarrow> if i = 0 \<and> c \<in> live h then Inr (delete_object c h) else Inl Undefined
            | Num n \<Rightarrow> Inl Undefined))"

subsection \<open>States the statements are about\<close>

text \<open>
  The bump cursor and the end of the free space are addresses in one and the same pool
  object, and every head in the free-list table is null or an address. The constructor
  establishes both; they are what \<open>allocate\<close> needs to run without touching a pointer
  that has no cell.
\<close>

definition is_Addr :: "uintptr \<Rightarrow> bool" where
  "is_Addr p = (case p of Addr c i \<Rightarrow> True | Num n \<Rightarrow> False)"

definition cursor_ok :: "DataAllocator \<Rightarrow> bool" where
  "cursor_ok st =
     (case (freePtr st, endFree st) of
        (Addr c i, Addr d j) \<Rightarrow> c = d
      | _ \<Rightarrow> False)"

definition heads_ok :: "DataAllocator \<Rightarrow> bool" where
  "heads_ok st = list_all (\<lambda>v. v = nullptr \<or> is_Addr v) (freeMem st)"

text \<open>Objects of the free store are numbered below \<open>created\<close>, so that the object \<open>new\<close>
  returns is not one of the live ones.\<close>

definition heap_ok :: "'a heap_scheme \<Rightarrow> bool" where
  "heap_ok h = (\<forall>c \<in> live h. c < created h)"

text \<open>The number of words a request of \<open>size0\<close> items occupies: \<open>intSize\<close> after lines 85
  and 88 of \<open>allocate\<close> (133 and 134 of \<open>deallocate\<close>).\<close>

definition block_words :: "config \<Rightarrow> nat \<Rightarrow> nat" where
  "block_words cfg size0 = size_plus cfg (arch_size cfg size0) (DEBUG_OFFSET cfg)"

text \<open>
  A pool is an object of the program, so the size of its word array in bytes is a value
  of \<open>size_t\<close>.
\<close>

definition config_ok :: "config \<Rightarrow> bool" where
  "config_ok cfg = (word_bytes cfg * CHUNK_SIZE cfg < 2 ^ word_bits cfg)"

text \<open>
  The chain of pools that starts at \<open>p\<close> and follows the \<open>next\<close> fields is the finite list
  \<open>ps\<close>; the free list that starts at the head \<open>h\<close> and follows the links stored in the
  first word of each block is the finite list \<open>fs\<close> of block addresses.
\<close>

primrec pool_chain :: "(nat \<Rightarrow> nat option) \<Rightarrow> nat option \<Rightarrow> nat list \<Rightarrow> bool" where
  "pool_chain nxt p [] = (p = None)"
| "pool_chain nxt p (q # qs) = (p = Some q \<and> pool_chain nxt (nxt q) qs)"

primrec free_list :: "(nat \<times> int \<Rightarrow> uintptr) \<Rightarrow> uintptr \<Rightarrow> (nat \<times> int) list \<Rightarrow> bool" where
  "free_list m h [] = (h = nullptr)"
| "free_list m h (b # bs) = (h = Addr (fst b) (snd b) \<and> free_list m (getNext (m b)) bs)"

text \<open>
  An address lies in the pools when it is in the current pool below the cursor, or
  anywhere in one of the older pools of the chain \<open>ps\<close>.
\<close>

definition in_pools :: "config \<Rightarrow> DataAllocator \<Rightarrow> nat list \<Rightarrow> uintptr \<Rightarrow> bool" where
  "in_pools cfg st ps data =
     (within data (pool_mem (memPool st)) (freePtr st) \<or>
      list_ex (\<lambda>q. within data (pool_mem q) (pool_end cfg q)) (tl ps))"

text \<open>
  What the assertions of \<open>deallocate\<close> in the debug configuration expect of the block of
  \<open>k\<close> words that starts at the address \<open>b\<close>: it is a block that was handed out and has
  not been released. Its header word records \<open>k\<close>; the chain of pools is the list \<open>ps\<close>
  without repetition, and the cursor is in the current pool; the block starts in the
  pools; the free list of class \<open>k\<close> is the list \<open>fs\<close>, and the block is not on it.
\<close>

definition handed_out ::
  "config \<Rightarrow> DataAllocator \<Rightarrow> nat list \<Rightarrow> (nat \<times> int) list \<Rightarrow> nat \<times> int \<Rightarrow> nat \<Rightarrow> bool" where
  "handed_out cfg st ps fs b k =
     (mem st b = Num k \<and>
      pool_chain (pool_next st) (Some (memPool st)) ps \<and> distinct ps \<and>
      (case freePtr st of Addr c f \<Rightarrow> c = memPool st | Num x \<Rightarrow> False) \<and>
      in_pools cfg st ps (Addr (fst b) (snd b)) \<and>
      free_list (mem st) (array_get (freeMem st) k) fs \<and> b \<notin> set fs)"

text \<open>
  The invariant of the allocator. A block is a pool, the offset of its first word and
  its number of words (in the debug configuration the first word is the header). The
  invariant relates a state to the list \<open>ps\<close> of its pools, to the list \<open>fl j\<close> of the
  blocks on the free list of each class \<open>j\<close>, and to the set \<open>out\<close> of the blocks that
  are handed out and not yet released:
  \<^item> the cursor is in the current pool, between its start and its end, and \<open>endFree\<close> is
    the end of the current pool;
  \<^item> the chain of pools is \<open>ps\<close>, without repetition, and its pools are live objects;
  \<^item> the free list of every class is a finite list without repetition;
  \<^item> no block is both free and handed out;
  \<^item> every block, free or handed out, has at least one word and lies in a pool of the
    chain, below the cursor if the pool is the current one;
  \<^item> no two blocks share a word;
  \<^item> in the debug configuration the header of every block handed out records its size.
\<close>

type_synonym block = "nat \<times> int \<times> nat"

definition overlap :: "block \<Rightarrow> block \<Rightarrow> bool" where
  "overlap a b =
     (case a of (c, i, k) \<Rightarrow> case b of (d, j, l) \<Rightarrow> c = d \<and> i < j + int l \<and> j < i + int k)"

definition free_blocks :: "(nat \<Rightarrow> (nat \<times> int) list) \<Rightarrow> block set" where
  "free_blocks fl = {(c, i, j). (c, i) \<in> set (fl j)}"

definition lists_ok ::
  "(nat \<times> int \<Rightarrow> uintptr) \<Rightarrow> uintptr list \<Rightarrow> (nat \<Rightarrow> (nat \<times> int) list) \<Rightarrow> bool" where
  "lists_ok m fm fl = (\<forall>j. free_list m (array_get fm j) (fl j) \<and> distinct (fl j))"

definition blocks_ok :: "nat \<Rightarrow> nat \<Rightarrow> int \<Rightarrow> nat list \<Rightarrow> block set \<Rightarrow> bool" where
  "blocks_ok N mp f ps B =
     ((\<forall>(c, i, k) \<in> B. c \<in> set ps \<and> 0 \<le> i \<and> 0 < k \<and> i + int k \<le> (if c = mp then f else int N)) \<and>
      (\<forall>a \<in> B. \<forall>b \<in> B. overlap a b \<longrightarrow> a = b))"

definition headers_ok :: "(nat \<times> int \<Rightarrow> uintptr) \<Rightarrow> block set \<Rightarrow> bool" where
  "headers_ok m out = (\<forall>(c, i, k) \<in> out. m (c, i) = Num k)"

definition cursor :: "DataAllocator \<Rightarrow> int" where
  "cursor st = (case freePtr st of Addr c f \<Rightarrow> f | Num n \<Rightarrow> 0)"

definition allocator_ok ::
  "config \<Rightarrow> DataAllocator \<Rightarrow> nat list \<Rightarrow> (nat \<Rightarrow> (nat \<times> int) list) \<Rightarrow> block set \<Rightarrow> bool" where
  "allocator_ok cfg st ps fl out =
     (freePtr st = Addr (memPool st) (cursor st) \<and> 0 \<le> cursor st \<and>
      cursor st \<le> int (CHUNK_SIZE cfg) \<and>
      endFree st = pool_end cfg (memPool st) \<and>
      pool_chain (pool_next st) (Some (memPool st)) ps \<and> distinct ps \<and>
      (\<forall>q \<in> set ps. q \<in> live st \<and> q < created st) \<and>
      lists_ok (mem st) (freeMem st) fl \<and>
      free_blocks fl \<inter> out = {} \<and>
      blocks_ok (CHUNK_SIZE cfg) (memPool st) (cursor st) ps (free_blocks fl \<union> out) \<and>
      (debug cfg \<longrightarrow> headers_ok (mem st) out))"

text \<open>
  The states an allocator reaches from its constructor when it is used as intended,
  together with the blocks handed out in them: by requests of a size that passes the
  check of line 78 and whose block fits in a pool, by releases of a block that is handed
  out, with the size of the request it answered, and by \<open>reset\<close>.
\<close>

inductive reachable :: "config \<Rightarrow> DataAllocator \<Rightarrow> block set \<Rightarrow> bool" for cfg where
  reachable_new: "reachable cfg (DataAllocator_new cfg h) {}"
| reachable_allocate:
    "reachable cfg st out \<Longrightarrow> 0 < n \<Longrightarrow> n \<le> CHUNK_SIZE cfg \<Longrightarrow>
     block_words cfg n \<le> CHUNK_SIZE cfg \<Longrightarrow>
     allocate cfg st n = Inr (Addr c (i + int (DEBUG_OFFSET cfg)), st') \<Longrightarrow>
     reachable cfg st' (insert (c, i, block_words cfg n) out)"
| reachable_deallocate:
    "reachable cfg st out \<Longrightarrow> n \<noteq> 0 \<Longrightarrow> (c, i, block_words cfg n) \<in> out \<Longrightarrow>
     deallocate cfg st (Addr c (i + int (DEBUG_OFFSET cfg))) n = Some (Inr st') \<Longrightarrow>
     reachable cfg st' (out - {(c, i, block_words cfg n)})"
| reachable_reset:
    "reachable cfg st out \<Longrightarrow> reset cfg st = Some st' \<Longrightarrow> reachable cfg st' {}"

text \<open>Concrete configurations with pools of eight words, and the empty free store, for
  worked examples.\<close>

definition heap0 :: heap where
  "heap0 = \<lparr>created = 0, live = {}, pool_next = (\<lambda>_. None), mem = (\<lambda>_. Num 0)\<rparr>"

definition release32 :: config where
  "release32 = \<lparr>arch = Arch32, debug = False, CHUNK_SIZE = 8\<rparr>"

definition release64 :: config where
  "release64 = \<lparr>arch = Arch64, debug = False, CHUNK_SIZE = 8\<rparr>"

definition debug32 :: config where
  "debug32 = \<lparr>arch = Arch32, debug = True, CHUNK_SIZE = 8\<rparr>"

definition debug64 :: config where
  "debug64 = \<lparr>arch = Arch64, debug = True, CHUNK_SIZE = 8\<rparr>"

text \<open>
  The states of the scenario of the specification, section 8, in the 32-bit release
  configuration: \<open>st_A\<close> after the constructor, \<open>st_AB\<close> after two blocks of three
  words (two words are left in pool 0), \<open>st_ABC\<close> after a third one, which did not fit:
  the two words left are on the free list of class 2 and pool 1 is the current pool.
\<close>

definition st_A :: DataAllocator where
  "st_A = \<lparr>created = 1, live = {0}, pool_next = (\<lambda>_. None), mem = (\<lambda>_. Num 0),
           memPool = 0, freePtr = Addr 0 0, endFree = Addr 0 8,
           freeMem = replicate 145 (Num 0)\<rparr>"

definition st_AB :: DataAllocator where
  "st_AB = st_A\<lparr>freePtr := Addr 0 6\<rparr>"

definition st_ABC :: DataAllocator where
  "st_ABC = \<lparr>created = 2, live = {0, 1}, pool_next = (\<lambda>_. None)(1 := Some 0),
             mem = (\<lambda>_. Num 0)((0, 6) := Num 0),
             memPool = 1, freePtr = Addr 1 3, endFree = Addr 1 8,
             freeMem = (replicate 145 (Num 0))[2 := Addr 0 6]\<rparr>"

text \<open>
  The debug build after two requests of three items: each block has a header word that
  records its size of four words, and the pool is full.
\<close>

definition st_debug_AB :: DataAllocator where
  "st_debug_AB = \<lparr>created = 1, live = {0}, pool_next = (\<lambda>_. None),
                  mem = (\<lambda>_. Num 0)((0, 0) := Num 4, (0, 4) := Num 4),
                  memPool = 0, freePtr = Addr 0 8, endFree = Addr 0 8,
                  freeMem = replicate 145 (Num 0)\<rparr>"

text \<open>
  The same scenario in the 64-bit release configuration, where a request of six items
  occupies three words: \<open>st_AB\<close> is also the state after two requests of six items, and
  \<open>st64_ABC\<close> the state after a third one. \<open>st64_A\<close> is the state after one request of six
  items, \<open>st64_A4\<close> the state after a further request of four items (three words are left
  in pool 0), and \<open>st64_AX\<close> the state after a request of eight items, which did not fit
  into the three words left.
\<close>

definition st64_ABC :: DataAllocator where
  "st64_ABC = \<lparr>created = 2, live = {0, 1}, pool_next = (\<lambda>_. None)(1 := Some 0),
               mem = (\<lambda>_. Num 0)((0, 6) := Num 0),
               memPool = 1, freePtr = Addr 1 3, endFree = Addr 1 8,
               freeMem = (replicate 145 (Num 0))[1 := Addr 0 6]\<rparr>"

definition st64_A :: DataAllocator where
  "st64_A = st_A\<lparr>freePtr := Addr 0 3\<rparr>"

definition st64_A4 :: DataAllocator where
  "st64_A4 = st_A\<lparr>freePtr := Addr 0 5\<rparr>"

definition st64_AX :: DataAllocator where
  "st64_AX = \<lparr>created = 2, live = {0, 1}, pool_next = (\<lambda>_. None)(1 := Some 0),
              mem = (\<lambda>_. Num 0)((0, 5) := Num 0),
              memPool = 1, freePtr = Addr 1 4, endFree = Addr 1 8,
              freeMem = (replicate 145 (Num 0))[2 := Addr 0 5]\<rparr>"

text \<open>The 64-bit debug build after one request of three items: two words for the items
  and the header word.\<close>

definition st_debug64_A :: DataAllocator where
  "st_debug64_A = \<lparr>created = 1, live = {0}, pool_next = (\<lambda>_. None),
                   mem = (\<lambda>_. Num 0)((0, 0) := Num 3),
                   memPool = 0, freePtr = Addr 0 3, endFree = Addr 0 8,
                   freeMem = replicate 145 (Num 0)\<rparr>"

section \<open>Basic facts\<close>

subsection \<open>Pointers, memory and the table\<close>

lemma ptr_add_Addr [simp]: "ptr_add cfg (Addr c i) k = Addr c (i + k)"
  by (simp add: ptr_add_def)

lemma load_Addr [simp]: "load h (Addr c i) = Inr (mem h (c, i))"
  by (simp add: load_def)

lemma store_Addr [simp]: "store h (Addr c i) v = Inr (h\<lparr>mem := (mem h)((c, i) := v)\<rparr>)"
  by (simp add: store_def)

lemma Addr_not_null [simp]: "Addr c i \<noteq> nullptr" "nullptr \<noteq> Addr c i"
  by (simp_all add: nullptr_def)

lemma heads_okD:
  "heads_ok st \<Longrightarrow> array_get (freeMem st) k = nullptr \<or> is_Addr (array_get (freeMem st) k)"
  by (auto simp: heads_ok_def array_get_def list_all_length nullptr_def)

lemma is_AddrE: "is_Addr p \<Longrightarrow> \<exists>c i. p = Addr c i"
  by (cases p) (simp_all add: is_Addr_def)

lemma cursor_okE: "cursor_ok st \<Longrightarrow> \<exists>c i j. freePtr st = Addr c i \<and> endFree st = Addr c j"
  by (auto simp: cursor_ok_def split: uintptr.splits)

lemma allocate_reuse_Addr:
  "allocate_reuse cfg st k (Addr c i) =
     Inr (Addr c (i + int (DEBUG_OFFSET cfg)),
          (if debug cfg
           then st\<lparr>freeMem := array_set (freeMem st) k (mem st (c, i)), mem := (mem st)((c, i) := Num k)\<rparr>
           else st\<lparr>freeMem := array_set (freeMem st) k (mem st (c, i))\<rparr>))"
  by (simp add: allocate_reuse_def getNext_def Let_def)

lemma allocate_extend_Addr:
  assumes "endFree st = Addr c j"
  shows "allocate_extend cfg st k (Addr c i) =
    (let memLeft = nat ((j - i) mod 2 ^ 32);
         st1 = (if memLeft \<noteq> 0
                then st\<lparr>freeMem := array_set (freeMem st) (arch_size cfg memLeft) (Addr c i),
                        mem := (mem st)((c, i) := array_get (freeMem st) (arch_size cfg memLeft))\<rparr>
                else st);
         p = created st;
         st2 = st1\<lparr>created := Suc p, live := insert p (live st),
                    pool_next := (pool_next st)(p := Some (memPool st)), memPool := p,
                    freePtr := Addr p (int k), endFree := Addr p (int (CHUNK_SIZE cfg))\<rparr>
     in Inr (Addr p (int (DEBUG_OFFSET cfg)),
             if debug cfg then st2\<lparr>mem := (mem st2)((p, 0) := Num k)\<rparr> else st2))"
  using assms
  by (simp add: allocate_extend_def ptr_diff_def Let_def array_replace_def new_object_def
      pool_mem_def pool_end_def getNext_def)

lemma allocate_cases:
  assumes "0 < n" "n \<le> CHUNK_SIZE cfg \<or> \<not> debug cfg"
    and "freePtr st = Addr c i" "endFree st = Addr c j"
  shows "allocate cfg st n =
    (let k = block_words cfg n; h = array_get (freeMem st) k
     in if h \<noteq> nullptr then allocate_reuse cfg st k h
        else if i + int k \<le> j
        then Inr (Addr c (i + int (DEBUG_OFFSET cfg)),
                  if debug cfg
                  then st\<lparr>freePtr := Addr c (i + int k), mem := (mem st)((c, i) := Num k)\<rparr>
                  else st\<lparr>freePtr := Addr c (i + int k)\<rparr>)
        else allocate_extend cfg (st\<lparr>freePtr := Addr c (i + int k)\<rparr>) k (Addr c i))"
  using assms
  by (auto simp add: allocate_def Let_def ptr_le_def block_words_def)

lemma array_get_set [simp]: "array_get (array_set xs k v) k = v"
proof -
  have "k < length (xs @ replicate (Suc k - length xs) (Num 0))"
    by simp
  then show ?thesis
    by (simp add: array_get_def array_set_def del: length_append length_replicate)
qed

lemma array_get_set_other: "k' \<noteq> k \<Longrightarrow> array_get (array_set xs k v) k' = array_get xs k'"
  by (auto simp add: array_get_def array_set_def nth_append)

subsection \<open>The example states\<close>

lemma reach_A: "DataAllocator_new release32 heap0 = st_A"
  by (simp add: DataAllocator_new_def new_object_def heap0_def st_A_def release32_def pool_mem_def pool_end_def)

lemma array_get_replicate [simp]: "array_get (replicate n (Num 0)) k = Num 0"
  by (simp add: array_get_def)

lemma release32_simps [simp]:
  "arch release32 = Arch32" "debug release32 = False" "CHUNK_SIZE release32 = 8"
  by (simp_all add: release32_def)

lemma release64_simps [simp]:
  "arch release64 = Arch64" "debug release64 = False" "CHUNK_SIZE release64 = 8"
  by (simp_all add: release64_def)

lemma debug32_simps [simp]:
  "arch debug32 = Arch32" "debug debug32 = True" "CHUNK_SIZE debug32 = 8"
  by (simp_all add: debug32_def)

lemma debug64_simps [simp]:
  "arch debug64 = Arch64" "debug debug64 = True" "CHUNK_SIZE debug64 = 8"
  by (simp_all add: debug64_def)

lemma block_words_simps:
  "block_words cfg n =
     (((case arch cfg of Arch64 \<Rightarrow> ((n + 1) mod 2 ^ 64) div 2 | Arch32 \<Rightarrow> n) +
       (if debug cfg then 1 else 0)) mod (case arch cfg of Arch32 \<Rightarrow> 2 ^ 32 | Arch64 \<Rightarrow> 2 ^ 64))"
  by (simp add: block_words_def size_plus_def arch_size_def DEBUG_OFFSET_def word_bits_def split: arch.splits)

lemma reach_AB:
  "allocate release32 st_A 3 = Inr (Addr 0 0, st_A\<lparr>freePtr := Addr 0 3\<rparr>)"
  "allocate release32 (st_A\<lparr>freePtr := Addr 0 3\<rparr>) 3 = Inr (Addr 0 3, st_AB)"
  by (simp_all add: allocate_cases [where c = 0 and j = 8] st_A_def st_AB_def Let_def
      block_words_simps DEBUG_OFFSET_def nullptr_def)

lemma reach_ABC: "allocate release32 st_AB 3 = Inr (Addr 1 0, st_ABC)"
  by (simp add: allocate_cases [where c = 0 and i = 6 and j = 8] st_A_def st_AB_def st_ABC_def Let_def
      block_words_simps DEBUG_OFFSET_def nullptr_def
      allocate_extend_Addr [where c = 0 and j = 8] arch_size_def array_set_def insert_commute)

lemma st_A_simps [simp]:
  "created st_A = 1" "live st_A = {0}" "memPool st_A = 0" "freePtr st_A = Addr 0 0"
  "endFree st_A = Addr 0 8" "array_get (freeMem st_A) k = Num 0" "pool_next st_A p = None"
  "mem st_A a = Num 0" "length (freeMem st_A) = 145"
  by (simp_all add: st_A_def)

lemma st_AB_simps [simp]:
  "created st_AB = 1" "live st_AB = {0}" "memPool st_AB = 0" "freePtr st_AB = Addr 0 6"
  "endFree st_AB = Addr 0 8" "array_get (freeMem st_AB) k = Num 0" "pool_next st_AB p = None"
  "mem st_AB a = Num 0" "length (freeMem st_AB) = 145"
  by (simp_all add: st_AB_def)

lemma st_ABC_simps [simp]:
  "created st_ABC = 2" "live st_ABC = {0, 1}" "memPool st_ABC = 1" "freePtr st_ABC = Addr 1 3"
  "endFree st_ABC = Addr 1 8"
  "array_get (freeMem st_ABC) k = (if k = 2 then Addr 0 6 else Num 0)"
  "pool_next st_ABC p = (if p = 1 then Some 0 else None)"
  "mem st_ABC a = Num 0" "length (freeMem st_ABC) = 145"
  by (simp_all add: st_ABC_def array_get_def nth_list_update)

subsection \<open>Facts about \<open>deallocate\<close>\<close>

lemma deallocate_body_Addr:
  "deallocate_body cfg st (Addr c i) k =
     Inr (if Addr c (i + int k) = freePtr st then st\<lparr>freePtr := Addr c i\<rparr>
          else st\<lparr>freeMem := array_set (freeMem st) k (Addr c i),
                  mem := (mem st)((c, i) := getNext (array_get (freeMem st) k))\<rparr>)"
  by (simp add: deallocate_body_def array_replace_def)

lemma deallocate_release:
  "\<not> debug cfg \<Longrightarrow> n \<noteq> 0 \<Longrightarrow>
   deallocate cfg st (Addr c i) n = Some (deallocate_body cfg st (Addr c i) (block_words cfg n))"
  by (simp add: deallocate_def block_words_def DEBUG_OFFSET_def Let_def)

lemma deallocate_debug_Inr:
  assumes "debug cfg" "n \<noteq> 0" "deallocate cfg st ptr n = Some (Inr st')"
  shows "deallocate_body cfg st (ptr_add cfg ptr (- 1)) (block_words cfg n) = Inr st'"
  using assms
  by (auto simp add: deallocate_def block_words_def DEBUG_OFFSET_def Let_def
      split: sum.splits option.splits if_splits bool.splits)

lemma st_debug_AB_simps [simp]:
  "created st_debug_AB = 1" "live st_debug_AB = {0}" "memPool st_debug_AB = 0"
  "freePtr st_debug_AB = Addr 0 8" "endFree st_debug_AB = Addr 0 8"
  "array_get (freeMem st_debug_AB) k = Num 0" "pool_next st_debug_AB p = None"
  "mem st_debug_AB (0, 0) = Num 4" "mem st_debug_AB (0, 4) = Num 4"
  "length (freeMem st_debug_AB) = 145"
  by (simp_all add: st_debug_AB_def)

lemma reach_debug_AB:
  "allocate debug32 st_A 3 = Inr (Addr 0 1, st_A\<lparr>freePtr := Addr 0 4, mem := (mem st_A)((0, 0) := Num 4)\<rparr>)"
  "allocate debug32 (st_A\<lparr>freePtr := Addr 0 4, mem := (mem st_A)((0, 0) := Num 4)\<rparr>) 3 =
     Inr (Addr 0 5, st_debug_AB)"
  by (simp_all add: allocate_cases [where c = 0 and j = 8] Let_def block_words_simps DEBUG_OFFSET_def
      nullptr_def, simp_all add: st_A_def st_debug_AB_def)

lemma allocate_reuse_header:
  assumes "debug cfg" "allocate_reuse cfg st k h = Inr (p, st')"
  shows "\<exists>c i. p = Addr c (i + 1) \<and> mem st' (c, i) = Num k"
proof (cases h)
  case (Num x)
  then show ?thesis using assms by (simp add: allocate_reuse_def load_def)
next
  case (Addr c i)
  then show ?thesis using assms by (auto simp add: allocate_reuse_Addr DEBUG_OFFSET_def)
qed

lemma allocate_extend_header:
  assumes "debug cfg" "allocate_extend cfg st k d = Inr (p, st')"
  shows "\<exists>c i. p = Addr c (i + 1) \<and> mem st' (c, i) = Num k"
  using assms
  by (auto simp add: allocate_extend_def Let_def new_object_def pool_mem_def DEBUG_OFFSET_def
      store_def array_replace_def
      split: option.splits sum.splits if_splits prod.splits uintptr.splits)

lemma allocate_debug_header:
  assumes "debug cfg" "0 < n" "allocate cfg st n = Inr (p, st')"
  shows "\<exists>c i. p = Addr c (i + 1) \<and> mem st' (c, i) = Num (block_words cfg n)"
proof -
  let ?k = "block_words cfg n"
  show ?thesis
  proof (cases "array_get (freeMem st) ?k = nullptr")
    case False
    then have "allocate_reuse cfg st ?k (array_get (freeMem st) ?k) = Inr (p, st')"
      using assms by (simp add: allocate_def Let_def block_words_def split: if_splits)
    then show ?thesis by (rule allocate_reuse_header [OF assms(1)])
  next
    case True
    show ?thesis
    proof (cases "ptr_le (ptr_add cfg (freePtr st) (int ?k)) (endFree st)")
      case None
      then show ?thesis using assms True
        by (simp add: allocate_def Let_def block_words_def split: if_splits)
    next
      case (Some b)
      show ?thesis
      proof (cases b)
        case True
        then show ?thesis using assms Some \<open>array_get (freeMem st) ?k = nullptr\<close>
          by (auto simp add: allocate_def Let_def block_words_def store_def DEBUG_OFFSET_def
              split: if_splits uintptr.splits)
      next
        case False
        then have "allocate_extend cfg (st\<lparr>freePtr := ptr_add cfg (freePtr st) (int ?k)\<rparr>) ?k (freePtr st)
            = Inr (p, st')"
          using assms Some \<open>array_get (freeMem st) ?k = nullptr\<close>
          by (simp add: allocate_def Let_def block_words_def split: if_splits)
        then show ?thesis by (rule allocate_extend_header [OF assms(1)])
      qed
    qed
  qed
qed

lemma hasInPools_free_range:
  assumes "hasInPools_free st data fdata = Some y"
  shows "y = Inl Undefined \<or> (\<exists>b. y = Inr b)"
proof (rule hasInPools_free.raw_induct [OF _ assms])
  fix f st data fdata y
  assume ih: "\<And>st data fdata y. f st data fdata = Some y \<Longrightarrow> y = Inl Undefined \<or> (\<exists>b. y = Inr b)"
    and step: "(if fdata = nullptr then Some (Inr True)
      else if data = fdata then Some (Inr False)
      else (case load st fdata of
              Inl e \<Rightarrow> Some (Inl e)
            | Inr w \<Rightarrow> f st data (getNext w))) = Some y"
  show "y = Inl Undefined \<or> (\<exists>b. y = Inr b)"
  proof (cases fdata)
    case (Num x)
    then show ?thesis using step by (auto simp add: load_def split: if_splits)
  next
    case (Addr c i)
    then show ?thesis using step ih by (auto simp add: load_def split: if_splits)
  qed
qed

lemma hasInPools_free_error:
  "hasInPools_free st data fdata = Some y \<Longrightarrow> y \<noteq> Inl (AssertFailed l)"
  using hasInPools_free_range by fastforce

lemma hasInPools_error:
  "hasInPools cfg st data k = Some y \<Longrightarrow> y \<noteq> Inl (AssertFailed l)"
  by (auto simp add: hasInPools_def split: option.splits if_splits dest: hasInPools_free_error)

lemma allocate_returns_nonnull:
  assumes "cursor_ok st" "heads_ok st" "0 < n" "n \<le> CHUNK_SIZE cfg"
  shows "\<exists>p st'. allocate cfg st n = Inr (p, st') \<and> p \<noteq> nullptr"
proof -
  let ?k = "block_words cfg n"
  obtain c i j where cur: "freePtr st = Addr c i" "endFree st = Addr c j"
    using cursor_okE[OF assms(1)] by blast
  have eq: "allocate cfg st n =
    (let k = block_words cfg n; h = array_get (freeMem st) k
     in if h \<noteq> nullptr then allocate_reuse cfg st k h
        else if i + int k \<le> j
        then Inr (Addr c (i + int (DEBUG_OFFSET cfg)),
                  if debug cfg
                  then st\<lparr>freePtr := Addr c (i + int k), mem := (mem st)((c, i) := Num k)\<rparr>
                  else st\<lparr>freePtr := Addr c (i + int k)\<rparr>)
        else allocate_extend cfg (st\<lparr>freePtr := Addr c (i + int k)\<rparr>) k (Addr c i))"
    using assms(3,4) cur by (intro allocate_cases) simp_all
  show ?thesis
  proof (cases "array_get (freeMem st) ?k = nullptr")
    case False
    then obtain d l where "array_get (freeMem st) ?k = Addr d l"
      using heads_okD[OF assms(2), of ?k] is_AddrE by blast
    then show ?thesis
      by (simp add: eq Let_def allocate_reuse_Addr)
  next
    case True
    then show ?thesis using cur
      by (simp add: eq Let_def allocate_extend_Addr [where c = c and j = j])
  qed
qed

lemma st_debug64_A_simps [simp]:
  "created st_debug64_A = 1" "live st_debug64_A = {0}" "memPool st_debug64_A = 0"
  "freePtr st_debug64_A = Addr 0 3" "endFree st_debug64_A = Addr 0 8"
  "array_get (freeMem st_debug64_A) k = Num 0" "pool_next st_debug64_A p = None"
  "mem st_debug64_A (0, 0) = Num 3" "length (freeMem st_debug64_A) = 145"
  by (simp_all add: st_debug64_A_def)

lemma reach_debug64_A: "allocate debug64 st_A 3 = Inr (Addr 0 1, st_debug64_A)"
  by (simp add: allocate_cases [where c = 0 and i = 0 and j = 8] Let_def block_words_simps
      DEBUG_OFFSET_def nullptr_def, simp add: st_A_def st_debug64_A_def)

lemmas deallocate_eval =
  deallocate_def Let_def DEBUG_OFFSET_def size_plus_def arch_size_def word_bits_def
  hasInPools_def within_def pool_mem_def hasInPools_free.simps hasInPools_pools.simps
  deallocate_body_Addr nullptr_def

subsection \<open>Facts about \<open>reset\<close> and \<open>printStats\<close>\<close>

lemma reset_loop_None [simp]: "reset_loop st None = Some st"
  by (simp add: reset_loop.simps)

lemma reset_result:
  "reset cfg st =
     Some (st\<lparr>pool_next := (pool_next st)(memPool st := None),
              freePtr := pool_mem (memPool st), endFree := pool_end cfg (memPool st),
              freeMem := array_reset (freeMem st)\<rparr>)"
  by (simp add: reset_def Let_def)

lemma array_get_reset [simp]: "array_get (array_reset xs) k = nullptr"
  by (simp add: array_get_def array_reset_def nullptr_def)

lemma printStats_list_empty [simp]: "printStats_list st i (nullptr, m) = Some (Inr m)"
  by (simp add: printStats_list.simps)

lemma printStats_classes_empty:
  "(\<And>i. i \<in> set xs \<Longrightarrow> array_get (freeMem st) i = nullptr) \<Longrightarrow>
   printStats_classes st xs m = Some (Inr m)"
  by (induction xs arbitrary: m) simp_all

lemma printStats_pools_single:
  "pool_next st p = None \<Longrightarrow> printStats_pools st (Some p) 0 = Some 1"
  by (simp add: printStats_pools.simps)

lemma printStats_after_reset:
  assumes "pool_next st (memPool st) = None" "freePtr st = pool_mem (memPool st)"
    and "endFree st = pool_end cfg (memPool st)" "\<And>k. array_get (freeMem st) k = nullptr"
  shows "printStats cfg st =
    Some (Inr \<lparr>pools_allocated = 1, total_memory = (4 * CHUNK_SIZE cfg) mod 2 ^ 32,
                memory_allocated = 0,
                available_in_current_pool = nat ((int (CHUNK_SIZE cfg) * 4) mod 2 ^ 32),
                deallocated_available = 0\<rparr>)"
  using assms
  by (simp add: printStats_def printStats_pools_single printStats_classes_empty
      pool_mem_def pool_end_def ptr_diff_def)

subsection \<open>The 64-bit example states\<close>

lemma st64_A_simps [simp]:
  "created st64_A = 1" "live st64_A = {0}" "memPool st64_A = 0" "freePtr st64_A = Addr 0 3"
  "endFree st64_A = Addr 0 8" "array_get (freeMem st64_A) k = Num 0" "pool_next st64_A p = None"
  "mem st64_A a = Num 0" "length (freeMem st64_A) = 145"
  by (simp_all add: st64_A_def)

lemma st64_ABC_simps [simp]:
  "created st64_ABC = 2" "live st64_ABC = {0, 1}" "memPool st64_ABC = 1"
  "freePtr st64_ABC = Addr 1 3" "endFree st64_ABC = Addr 1 8"
  "array_get (freeMem st64_ABC) k = (if k = 1 then Addr 0 6 else Num 0)"
  "pool_next st64_ABC p = (if p = 1 then Some 0 else None)"
  "mem st64_ABC a = Num 0" "length (freeMem st64_ABC) = 145"
  by (simp_all add: st64_ABC_def array_get_def nth_list_update)

lemma st64_A4_simps [simp]:
  "created st64_A4 = 1" "live st64_A4 = {0}" "memPool st64_A4 = 0" "freePtr st64_A4 = Addr 0 5"
  "endFree st64_A4 = Addr 0 8" "array_get (freeMem st64_A4) k = Num 0" "pool_next st64_A4 p = None"
  "mem st64_A4 a = Num 0" "length (freeMem st64_A4) = 145"
  by (simp_all add: st64_A4_def)

lemma st64_AX_simps [simp]:
  "created st64_AX = 2" "live st64_AX = {0, 1}" "memPool st64_AX = 1"
  "freePtr st64_AX = Addr 1 4" "endFree st64_AX = Addr 1 8"
  "array_get (freeMem st64_AX) k = (if k = 2 then Addr 0 5 else Num 0)"
  "pool_next st64_AX p = (if p = 1 then Some 0 else None)"
  "mem st64_AX a = Num 0" "length (freeMem st64_AX) = 145"
  by (simp_all add: st64_AX_def array_get_def nth_list_update)

lemmas allocate_eval =
  Let_def block_words_simps DEBUG_OFFSET_def nullptr_def arch_size_def array_set_def
  insert_commute

lemma reach64_A: "allocate release64 st_A 6 = Inr (Addr 0 0, st64_A)"
  by (simp add: allocate_cases [where c = 0 and i = 0 and j = 8] allocate_eval, simp add: st_A_def st64_A_def)

lemma reach64_AB: "allocate release64 st64_A 6 = Inr (Addr 0 3, st_AB)"
  by (simp add: allocate_cases [where c = 0 and i = 3 and j = 8] allocate_eval, simp add: st_A_def st64_A_def st_AB_def)

lemma reach64_ABC: "allocate release64 st_AB 6 = Inr (Addr 1 0, st64_ABC)"
  by (simp add: allocate_cases [where c = 0 and i = 6 and j = 8]
      allocate_extend_Addr [where c = 0 and j = 8] allocate_eval,
      simp add: st_A_def st_AB_def st64_ABC_def allocate_eval)

lemma reach64_A4: "allocate release64 st64_A 4 = Inr (Addr 0 3, st64_A4)"
  by (simp add: allocate_cases [where c = 0 and i = 3 and j = 8] allocate_eval,
      simp add: st_A_def st64_A_def st64_A4_def)

lemma reach64_AX: "allocate release64 st64_A4 8 = Inr (Addr 1 0, st64_AX)"
  by (simp add: allocate_cases [where c = 0 and i = 5 and j = 8]
      allocate_extend_Addr [where c = 0 and j = 8] allocate_eval,
      simp add: st_A_def st64_A4_def st64_AX_def allocate_eval)

lemma printStats_classes_append:
  "printStats_classes st (xs @ ys) m =
     (case printStats_classes st xs m of
        None \<Rightarrow> None
      | Some (Inl e) \<Rightarrow> Some (Inl e)
      | Some (Inr m') \<Rightarrow> printStats_classes st ys m')"
  by (induction xs arbitrary: m) (simp_all split: option.splits sum.splits)

lemma upt_split_class: "c < n \<Longrightarrow> [0..<n] = [0..<c] @ c # [Suc c..<n]"
  by (metis le_add1 less_imp_add_positive plus_nat.add_0 upt_add_eq_append upt_rec)

lemma printStats_classes_single:
  assumes "c < n" "\<And>i. i \<noteq> c \<Longrightarrow> array_get (freeMem st) i = nullptr"
  shows "printStats_classes st [0..<n] 0 =
           printStats_list st c (array_get (freeMem st) c, 0)"
proof -
  have a: "printStats_classes st [0..<c] 0 = Some (Inr 0)"
    by (rule printStats_classes_empty) (use assms in auto)
  have b: "printStats_classes st [Suc c..<n] m = Some (Inr m)" for m
    by (rule printStats_classes_empty) (use assms in auto)
  show ?thesis
    by (simp add: upt_split_class [OF assms(1)] printStats_classes_append a b
        split: option.splits sum.splits)
qed

subsection \<open>Where a block comes from\<close>

lemma allocate_source:
  assumes "cursor_ok st" "heads_ok st" "0 < n" "n \<le> CHUNK_SIZE cfg"
  shows "\<exists>c i st1. allocate cfg st n = Inr (Addr c (i + int (DEBUG_OFFSET cfg)), st1) \<and>
           (Addr c i = array_get (freeMem st) (block_words cfg n) \<or> Addr c i = freePtr st \<or>
            Addr c i = pool_mem (created st))"
proof -
  let ?k = "block_words cfg n"
  obtain c i j where cur: "freePtr st = Addr c i" "endFree st = Addr c j"
    using cursor_okE[OF assms(1)] by blast
  note eq = allocate_cases [OF assms(3) disjI1 [OF assms(4)] cur]
  show ?thesis
  proof (cases "array_get (freeMem st) ?k = nullptr")
    case False
    then obtain d l where "array_get (freeMem st) ?k = Addr d l"
      using heads_okD[OF assms(2), of ?k] is_AddrE by blast
    then show ?thesis
      by (simp add: eq Let_def allocate_reuse_Addr)
  next
    case True
    then show ?thesis using cur
      by (simp add: eq Let_def allocate_extend_Addr [where c = c and j = j] pool_mem_def)
  qed
qed

lemma st_A_ok: "cursor_ok st_A" "heads_ok st_A"
  by (simp_all add: cursor_ok_def heads_ok_def st_A_def list_all_length nullptr_def)

subsection \<open>The cursor and the end of the free space stay in one pool\<close>

text \<open>The constructor makes the cursor and the end of the free space addresses in one
  pool object, and every operation that returns keeps them in one pool object.\<close>

lemma cursor_ok_new: "cursor_ok (DataAllocator_new cfg h)"
  by (simp add: cursor_ok_def DataAllocator_new_def new_object_def pool_mem_def pool_end_def)

lemma cursor_ok_allocate:
  assumes "cursor_ok st" "allocate cfg st n = Inr (p, st')"
  shows "cursor_ok st'"
proof -
  obtain c i j where cur: "freePtr st = Addr c i" "endFree st = Addr c j"
    using cursor_okE[OF assms(1)] by blast
  show ?thesis
  proof (cases "n = 0")
    case True
    then show ?thesis using assms by (auto simp add: allocate_def split: if_splits)
  next
    case False
    then have ok: "n \<le> CHUNK_SIZE cfg \<or> \<not> debug cfg"
      using assms(2) by (auto simp add: allocate_def split: if_splits)
    have pos: "0 < n" using False by simp
    note eq = allocate_cases [OF pos ok cur]
    show ?thesis
    proof (cases "array_get (freeMem st) (block_words cfg n)")
      case (Num x)
      then show ?thesis using assms(2) cur
        by (auto simp add: eq Let_def allocate_reuse_def load_def cursor_ok_def nullptr_def
            allocate_extend_Addr [where c = c and j = j] split: if_splits)
    next
      case (Addr d l)
      then show ?thesis using assms(2) cur
        by (auto simp add: eq Let_def allocate_reuse_Addr cursor_ok_def split: if_splits)
    qed
  qed
qed

lemma cursor_ok_deallocate_body:
  assumes "cursor_ok st" "deallocate_body cfg st data k = Inr st'"
  shows "cursor_ok st'"
proof (cases data)
  case (Num x)
  then show ?thesis using assms
    by (auto simp add: deallocate_body_def cursor_ok_def ptr_add_def store_def array_replace_def
        split: if_splits uintptr.splits)
next
  case (Addr c i)
  then show ?thesis using assms
    by (auto simp add: deallocate_body_Addr cursor_ok_def split: if_splits uintptr.splits)
qed

lemma cursor_ok_deallocate:
  assumes "cursor_ok st" "deallocate cfg st p n = Some (Inr st')"
  shows "cursor_ok st'"
proof (cases "n = 0")
  case True
  then show ?thesis using assms by (simp add: deallocate_def)
next
  case False
  then obtain data k where "deallocate_body cfg st data k = Inr st'"
    using assms(2)
    by (auto simp add: deallocate_def Let_def split: if_splits sum.splits option.splits bool.splits)
  then show ?thesis using assms(1) by (rule cursor_ok_deallocate_body [rotated])
qed

lemma cursor_ok_reset: "reset cfg st = Some st' \<Longrightarrow> cursor_ok st'"
  by (auto simp add: reset_result cursor_ok_def pool_mem_def pool_end_def)

subsection \<open>The size conversion and the tail left in a pool\<close>

text \<open>
  A request enters the bookkeeping only through \<open>arch_size\<close>: two sizes with the same
  \<open>arch_size\<close> are treated alike by \<open>allocate\<close> and by \<open>deallocate\<close>.
\<close>

lemma same_arch_size_same_behaviour:
  assumes "arch_size cfg n = arch_size cfg n'" "n \<noteq> 0" "n' \<noteq> 0"
    and "debug cfg \<longrightarrow> n \<le> CHUNK_SIZE cfg \<and> n' \<le> CHUNK_SIZE cfg"
  shows "allocate cfg st n = allocate cfg st n'" "deallocate cfg st p n = deallocate cfg st p n'"
  using assms by (auto simp add: allocate_def deallocate_def)

text \<open>
  When a request does not fit into the \<open>m = j - i\<close> words left in the current pool, line
  110 files them under the class \<open>arch_size(m)\<close>. In the 32-bit configuration that is the
  class \<open>m\<close> itself, and a later request that occupies \<open>m\<close> words is served from the
  tail. In the 64-bit configuration it is the class \<open>(m + 1) div 2\<close>, which is smaller
  than \<open>m\<close> as soon as two words are left, whatever \<open>CHUNK_SIZE\<close> is; class \<open>m\<close> is not
  touched.
\<close>

lemma leftover_class_arch32:
  assumes "arch cfg = Arch32" "0 < n" "n \<le> CHUNK_SIZE cfg \<or> \<not> debug cfg"
    and "freePtr st = Addr c i" "endFree st = Addr c j"
    and "array_get (freeMem st) (block_words cfg n) = nullptr"
    and "\<not> i + int (block_words cfg n) \<le> j" "i < j" "j - i < 2 ^ 32"
  shows "\<exists>st'. allocate cfg st n = Inr (Addr (created st) (int (DEBUG_OFFSET cfg)), st') \<and>
           array_get (freeMem st') (nat (j - i)) = Addr c i \<and>
           (\<forall>n'. 0 < n' \<and> (n' \<le> CHUNK_SIZE cfg \<or> \<not> debug cfg) \<and> block_words cfg n' = nat (j - i) \<longrightarrow>
              (\<exists>st''. allocate cfg st' n' = Inr (Addr c (i + int (DEBUG_OFFSET cfg)), st'')))"
proof -
  let ?k = "block_words cfg n"
  let ?m = "nat (j - i)"
  have m: "nat ((j - i) mod 2 ^ 32) = ?m" "?m \<noteq> 0" "arch_size cfg ?m = ?m"
    using assms(1,8,9) by (simp_all add: arch_size_def)
  obtain st' where
    al: "allocate cfg st n = Inr (Addr (created st) (int (DEBUG_OFFSET cfg)), st')" and
    fm: "array_get (freeMem st') ?m = Addr c i" and
    cur': "freePtr st' = Addr (created st) (int ?k)" "endFree st' = Addr (created st) (int (CHUNK_SIZE cfg))"
    using assms(6,7) m
    by (simp add: allocate_cases [OF assms(2,3,4,5)] Let_def
        allocate_extend_Addr [where c = c and j = j] assms(5))
  have "\<exists>st''. allocate cfg st' n' = Inr (Addr c (i + int (DEBUG_OFFSET cfg)), st'')"
    if "0 < n'" "n' \<le> CHUNK_SIZE cfg \<or> \<not> debug cfg" "block_words cfg n' = ?m" for n'
    using fm that(3)
    by (simp add: allocate_cases [OF that(1,2) cur'] Let_def allocate_reuse_Addr)
  with al fm show ?thesis by blast
qed

lemma leftover_class_arch64:
  assumes "arch cfg = Arch64" "0 < n" "n \<le> CHUNK_SIZE cfg \<or> \<not> debug cfg"
    and "freePtr st = Addr c i" "endFree st = Addr c j"
    and "array_get (freeMem st) (block_words cfg n) = nullptr"
    and "\<not> i + int (block_words cfg n) \<le> j" "i + 1 < j" "j - i < 2 ^ 32"
  shows "\<exists>st'. allocate cfg st n = Inr (Addr (created st) (int (DEBUG_OFFSET cfg)), st') \<and>
           array_get (freeMem st') ((nat (j - i) + 1) div 2) = Addr c i \<and>
           (nat (j - i) + 1) div 2 < nat (j - i) \<and>
           array_get (freeMem st') (nat (j - i)) = array_get (freeMem st) (nat (j - i))"
proof -
  let ?m = "nat (j - i)"
  have m: "nat ((j - i) mod 2 ^ 32) = ?m" "?m \<noteq> 0"
    using assms(8,9) by simp_all
  have "?m + 1 < 2 ^ 64" using assms(9) by simp
  then have cls: "arch_size cfg ?m = (?m + 1) div 2"
    using assms(1) by (simp add: arch_size_def)
  have lt: "(?m + 1) div 2 < ?m" using assms(8) by simp
  then have ne: "?m \<noteq> (?m + 1) div 2" by simp
  have other: "array_get (array_set (freeMem st) ((?m + 1) div 2) (Addr c i)) ?m =
      array_get (freeMem st) ?m"
    by (rule array_get_set_other [OF ne])
  show ?thesis
    using assms(6,7) m lt other
    by (simp add: allocate_cases [OF assms(2,3,4,5)] Let_def
        allocate_extend_Addr [where c = c and j = j] assms(5) cls)
qed

text \<open>
  In the release configuration, on either architecture, a request that is served at the
  cursor, or from the free list by a block that does not end at the cursor, and that is
  released at once, leaves the allocator exactly as it was.
\<close>

lemma array_set_in_range: "k < length xs \<Longrightarrow> array_set xs k v = xs[k := v]"
  by (simp add: array_set_def)

lemma array_set_restore:
  assumes "array_get xs k = h" "h \<noteq> nullptr"
  shows "array_set (array_set xs k v) k h = xs"
proof -
  have len: "k < length xs"
    using assms by (auto simp add: array_get_def nullptr_def split: if_splits)
  then have "xs ! k = h" using assms(1) by (simp add: array_get_def)
  with len show ?thesis using list_update_id [of xs k] by (simp add: array_set_in_range)
qed

lemma round_trip_state_release:
  assumes "\<not> debug cfg" "0 < n" "freePtr st = Addr c i" "endFree st = Addr c j"
    and "h = array_get (freeMem st) (block_words cfg n)"
    and "h \<noteq> nullptr \<longrightarrow> is_Addr h \<and> ptr_add cfg h (int (block_words cfg n)) \<noteq> freePtr st"
    and "h = nullptr \<longrightarrow> i + int (block_words cfg n) \<le> j"
  shows "\<exists>p st1. allocate cfg st n = Inr (p, st1) \<and> deallocate cfg st1 p n = Some (Inr st)"
proof -
  let ?k = "block_words cfg n"
  have ok: "n \<le> CHUNK_SIZE cfg \<or> \<not> debug cfg" using assms(1) by simp
  note eq = allocate_cases [OF assms(2) ok assms(3,4)]
  have n0: "n \<noteq> 0" using assms(2) by simp
  show ?thesis
  proof (cases "h = nullptr")
    case True
    then have "array_get (freeMem st) ?k = nullptr" "i + int ?k \<le> j"
      using assms(5,7) by simp_all
    then show ?thesis using assms(1,3) n0
      by (simp add: eq Let_def DEBUG_OFFSET_def deallocate_release deallocate_body_Addr)
  next
    case False
    then obtain d l where h: "h = Addr d l" using assms(6) is_AddrE by blast
    then have head: "array_get (freeMem st) ?k = Addr d l" using assms(5) by simp
    have far: "Addr d (l + int ?k) \<noteq> Addr c i" using assms(3,6) False h by simp
    have restore: "array_set (array_set (freeMem st) ?k (mem st (d, l))) ?k (Addr d l) = freeMem st"
      by (rule array_set_restore [OF head]) simp
    show ?thesis using assms(1,3) n0 far
      by (auto simp add: eq head Let_def DEBUG_OFFSET_def allocate_reuse_Addr deallocate_release
          deallocate_body_Addr getNext_def restore)
  qed
qed

text \<open>The scenario of the specification in the 32-bit release configuration: the figure
  \<open>printStats\<close> gives for the allocated memory is the same before the third request and
  after its release.\<close>

lemma round_trip_arch32_example:
  "(\<exists>s. printStats release32 st_AB = Some (Inr s) \<and> memory_allocated s = 24)
   \<and> allocate release32 st_AB 3 = Inr (Addr 1 0, st_ABC)
   \<and> deallocate release32 st_ABC (Addr 1 0) 3 = Some (Inr (st_ABC\<lparr>freePtr := Addr 1 0\<rparr>))
   \<and> (\<exists>s. printStats release32 (st_ABC\<lparr>freePtr := Addr 1 0\<rparr>) = Some (Inr s) \<and>
           memory_allocated s = 24)"
proof -
  have before: "\<exists>s. printStats release32 st_AB = Some (Inr s) \<and> memory_allocated s = 24"
    by (simp add: printStats_def printStats_pools.simps printStats_classes_empty nullptr_def
        ptr_diff_def)
  have dealloc: "deallocate release32 st_ABC (Addr 1 0) 3 =
      Some (Inr (st_ABC\<lparr>freePtr := Addr 1 0\<rparr>))"
    by (simp add: deallocate_release deallocate_body_Addr block_words_simps)
  have "printStats_classes (st_ABC\<lparr>freePtr := Addr 1 0\<rparr>) [0..<145] 0 = Some (Inr 2)"
    by (simp add: printStats_classes_single [where c = 2] nullptr_def printStats_list.simps getNext_def)
  then have after: "\<exists>s. printStats release32 (st_ABC\<lparr>freePtr := Addr 1 0\<rparr>) = Some (Inr s) \<and>
           memory_allocated s = 24"
    by (simp add: printStats_def printStats_pools.simps ptr_diff_def)
  from before dealloc after reach_ABC show ?thesis by simp
qed

text \<open>The debug build: a request of three items released at once.\<close>

lemma debug_round_trip_example:
  "deallocate debug32 (st_A\<lparr>freePtr := Addr 0 4, mem := (mem st_A)((0, 0) := Num 4)\<rparr>) (Addr 0 1) 3 =
     Some (Inr (st_A\<lparr>freePtr := Addr 0 0, mem := (mem st_A)((0, 0) := Num 4)\<rparr>))"
  by (simp add: deallocate_eval)

subsection \<open>The assertions of \<open>deallocate\<close>\<close>

text \<open>
  On a finite chain of pools and a finite free list both loops of \<open>hasInPools\<close> end, and
  the function says whether the address is in the pools and not on the list. For a block
  that was handed out the three assertions of \<open>deallocate\<close> hold, and the call returns.
\<close>


lemma hasInPools_pools_chain:
  "pool_chain (pool_next st) p ps \<Longrightarrow>
   hasInPools_pools cfg st data p = Some (list_ex (\<lambda>q. within data (pool_mem q) (pool_end cfg q)) ps)"
proof (induction ps arbitrary: p)
  case Nil
  then show ?case by (simp add: hasInPools_pools.simps)
next
  case (Cons q qs)
  then show ?case
    by (subst hasInPools_pools.simps) simp
qed

lemma hasInPools_free_list:
  "free_list (mem st) h fs \<Longrightarrow>
   hasInPools_free st (Addr c i) h = Some (Inr ((c, i) \<notin> set fs))"
proof (induction fs arbitrary: h)
  case Nil
  then show ?case by (simp add: hasInPools_free.simps)
next
  case (Cons b bs)
  then show ?case
    by (subst hasInPools_free.simps) (cases b, auto simp add: getNext_def)
qed

lemma free_list_upd:
  "b \<notin> set fs \<Longrightarrow> free_list (m(b := v)) h fs = free_list m h fs"
  by (induction fs arbitrary: h) auto

lemma hasInPools_chain:
  assumes "pool_chain (pool_next st) (Some (memPool st)) ps"
    and "free_list (mem st) (array_get (freeMem st) k) fs"
  shows "hasInPools cfg st (Addr c i) k =
           Some (Inr (in_pools cfg st ps (Addr c i) \<and> (c, i) \<notin> set fs))"
proof -
  obtain qs where ps: "ps = memPool st # qs" and ch: "pool_chain (pool_next st) (pool_next st (memPool st)) qs"
    using assms(1) by (cases ps) simp_all
  show ?thesis
    using hasInPools_pools_chain [OF ch, of cfg "Addr c i"] hasInPools_free_list [OF assms(2), of c i]
    by (auto simp add: hasInPools_def in_pools_def ps)
qed

lemma deallocate_handed_out:
  assumes "n \<noteq> 0" "ptr = Addr c i" "k = block_words cfg n"
    and "data = Addr c (i - int (DEBUG_OFFSET cfg))"
    and "debug cfg \<Longrightarrow> handed_out cfg st ps fs (c, i - 1) k"
  shows "deallocate cfg st ptr n =
           Some (Inr (if ptr_add cfg data (int k) = freePtr st
                      then st\<lparr>freePtr := data\<rparr>
                      else st\<lparr>freeMem := array_set (freeMem st) k data,
                              mem := (mem st)((c, i - int (DEBUG_OFFSET cfg)) :=
                                        getNext (array_get (freeMem st) k))\<rparr>))"
proof (cases "debug cfg")
  case False
  then show ?thesis using assms(1-4)
    by (simp add: deallocate_release deallocate_body_Addr DEBUG_OFFSET_def)
next
  case True
  note h = assms(5) [OF True]
  have D: "DEBUG_OFFSET cfg = 1" using True by (simp add: DEBUG_OFFSET_def)
  have hdr: "mem st (c, i - 1) = Num k"
    and ch: "pool_chain (pool_next st) (Some (memPool st)) ps" and dist: "distinct ps"
    and inp: "in_pools cfg st ps (Addr c (i - 1))"
    and fl: "free_list (mem st) (array_get (freeMem st) k) fs" and notin: "(c, i - 1) \<notin> set fs"
    using h by (simp_all add: handed_out_def)
  obtain f where cur: "freePtr st = Addr (memPool st) f"
    using h by (auto simp add: handed_out_def split: uintptr.splits)
  have pre: "hasInPools cfg st (Addr c (i - 1)) k = Some (Inr True)"
    using hasInPools_chain [OF ch fl, of cfg c "i - 1"] inp notin by simp
  let ?st1 = "if Addr c (i - 1 + int k) = freePtr st then st\<lparr>freePtr := Addr c (i - 1)\<rparr>
          else st\<lparr>freeMem := array_set (freeMem st) k (Addr c (i - 1)),
                  mem := (mem st)((c, i - 1) := getNext (array_get (freeMem st) k))\<rparr>"
  have body: "deallocate_body cfg st (Addr c (i - 1)) k = Inr ?st1"
    by (simp add: deallocate_body_Addr)
  have post: "hasInPools cfg ?st1 (Addr c (i - 1)) k = Some (Inr False)"
  proof (cases "Addr c (i - 1 + int k) = freePtr st")
    case True
    then have c: "c = memPool st" using cur by simp
    let ?s = "st\<lparr>freePtr := Addr c (i - 1)\<rparr>"
    obtain qs where ps: "ps = memPool st # qs" using ch by (cases ps) simp_all
    have "memPool st \<notin> set qs" using dist ps by simp
    then have out: "\<not> in_pools cfg ?s ps (Addr c (i - 1))"
      using c by (auto simp add: in_pools_def ps list_ex_iff within_def pool_mem_def pool_end_def)
    have "hasInPools cfg ?s (Addr c (i - 1)) k =
        Some (Inr (in_pools cfg ?s ps (Addr c (i - 1)) \<and> (c, i - 1) \<notin> set fs))"
      by (rule hasInPools_chain) (use ch fl in simp_all)
    then show ?thesis using True out by simp
  next
    case False
    let ?s = "st\<lparr>freeMem := array_set (freeMem st) k (Addr c (i - 1)),
                  mem := (mem st)((c, i - 1) := getNext (array_get (freeMem st) k))\<rparr>"
    have "free_list (mem ?s) (array_get (freeMem ?s) k) ((c, i - 1) # fs)"
      using fl notin by (simp add: free_list_upd getNext_def)
    then have "hasInPools cfg ?s (Addr c (i - 1)) k =
        Some (Inr (in_pools cfg ?s ps (Addr c (i - 1)) \<and> (c, i - 1) \<notin> set ((c, i - 1) # fs)))"
      by (intro hasInPools_chain) (use ch in simp_all)
    then show ?thesis using False by simp
  qed
  have ws: "size_plus cfg (arch_size cfg n) (Suc 0) = k"
    using assms(3) D by (simp add: block_words_def)
  have "deallocate cfg st (Addr c i) n = Some (Inr ?st1)"
    using assms(1) True hdr
    by (simp add: deallocate_def Let_def D ws pre body post)
  then show ?thesis using assms(2,4) D by simp
qed

subsection \<open>The invariant of the allocator\<close>


lemma free_blocks_iff: "(c, i, j) \<in> free_blocks fl \<longleftrightarrow> (c, i) \<in> set (fl j)"
  by (simp add: free_blocks_def)

lemma blocks_okD:
  "blocks_ok N mp f ps B \<Longrightarrow> (c, i, k) \<in> B \<Longrightarrow>
   c \<in> set ps \<and> 0 \<le> i \<and> 0 < k \<and> i + int k \<le> (if c = mp then f else int N)"
  by (auto simp add: blocks_ok_def)

lemma blocks_ok_overlap:
  "blocks_ok N mp f ps B \<Longrightarrow> a \<in> B \<Longrightarrow> b \<in> B \<Longrightarrow> overlap a b \<Longrightarrow> a = b"
  by (auto simp add: blocks_ok_def)

lemma blocks_ok_start:
  assumes "blocks_ok N mp f ps B" "(c, i, k) \<in> B" "(c, i, j) \<in> B"
  shows "j = k"
proof -
  have "0 < k" "0 < j" using blocks_okD [OF assms(1)] assms(2,3) by blast+
  then have "overlap (c, i, k) (c, i, j)" by (simp add: overlap_def)
  then show ?thesis using blocks_ok_overlap [OF assms(1,2,3)] by simp
qed

lemma free_list_head:
  assumes "free_list m (Addr c i) fs"
  shows "\<exists>rest. fs = (c, i) # rest \<and> free_list m (getNext (m (c, i))) rest"
  using assms by (cases fs) auto

lemma free_blocks_pop:
  assumes "fl k = (c, i) # rest" "(c, i) \<notin> set rest"
  shows "free_blocks (fl(k := rest)) = free_blocks fl - {(c, i, k)}"
  using assms by (auto simp add: free_blocks_def split: if_splits)

lemma free_blocks_push:
  "free_blocks (fl(k := (c, i) # fl k)) = insert (c, i, k) (free_blocks fl)"
  by (auto simp add: free_blocks_def split: if_splits)

text \<open>
  Each of the five ways in which \<open>allocate\<close> and \<open>deallocate\<close> change the state keeps the
  invariant: a block taken from a free list, a block cut at the cursor, a block at the
  start of a new pool (the words left in the old pool go on a free list), a block given
  back at the cursor, and a block put on a free list.
\<close>


lemma allocator_ok_reuse:
  assumes w: "allocator_ok cfg st ps fl out" and h: "array_get (freeMem st) k = Addr c i"
    and st': "st' = st\<lparr>freeMem := array_set (freeMem st) k (mem st (c, i)),
                       mem := (if debug cfg then (mem st)((c, i) := Num k) else mem st)\<rparr>"
  shows "allocator_ok cfg st' ps (fl(k := tl (fl k))) (insert (c, i, k) out)"
    and "(c, i, k) \<notin> out" and "(c, i, k) \<in> free_blocks fl"
proof -
  let ?B = "free_blocks fl \<union> out"
  have lo: "lists_ok (mem st) (freeMem st) fl" and dj: "free_blocks fl \<inter> out = {}"
    and bo: "blocks_ok (CHUNK_SIZE cfg) (memPool st) (cursor st) ps ?B"
    using w by (simp_all add: allocator_ok_def)
  have "free_list (mem st) (Addr c i) (fl k)" "distinct (fl k)"
    using lo h by (auto simp add: lists_ok_def dest: spec [where x = k])
  then obtain rest where fk: "fl k = (c, i) # rest"
    and fr: "free_list (mem st) (mem st (c, i)) rest" and nr: "(c, i) \<notin> set rest" "distinct rest"
    using free_list_head [of "mem st" c i "fl k"] by (auto simp add: getNext_def)
  show inF: "(c, i, k) \<in> free_blocks fl" using fk by (simp add: free_blocks_iff)
  then show notout: "(c, i, k) \<notin> out" using dj by blast
  have fb: "free_blocks (fl(k := tl (fl k))) = free_blocks fl - {(c, i, k)}"
    using free_blocks_pop [of fl k c i rest] fk nr by simp
  have B: "free_blocks (fl(k := tl (fl k))) \<union> insert (c, i, k) out = ?B"
    unfolding fb using inF by blast
  have dj': "free_blocks (fl(k := tl (fl k))) \<inter> insert (c, i, k) out = {}"
    unfolding fb using dj by blast
  have other: "(c, i) \<notin> set (fl j)" if "j \<noteq> k" for j
  proof
    assume "(c, i) \<in> set (fl j)"
    then have "(c, i, j) \<in> ?B" by (simp add: free_blocks_iff)
    moreover have "(c, i, k) \<in> ?B" using inF by simp
    ultimately show False using blocks_ok_start [OF bo] that by blast
  qed
  have lo': "lists_ok (mem st') (freeMem st') (fl(k := tl (fl k)))"
    unfolding lists_ok_def
  proof (intro allI conjI)
    fix j
    show "free_list (mem st') (array_get (freeMem st') j) ((fl(k := tl (fl k))) j)"
    proof (cases "j = k")
      case True
      have "free_list (mem st') (mem st (c, i)) rest"
        using fr nr by (simp add: st' free_list_upd)
      then show ?thesis using True fk by (simp add: st')
    next
      case False
      have "free_list (mem st) (array_get (freeMem st) j) (fl j)"
        using lo by (simp add: lists_ok_def)
      then have "free_list (mem st') (array_get (freeMem st) j) (fl j)"
        using other [OF False] by (simp add: st' free_list_upd)
      then show ?thesis using False
        by (simp add: st' array_get_set_other)
    qed
    show "distinct ((fl(k := tl (fl k))) j)"
      using lo fk nr by (simp add: lists_ok_def)
  qed
  have hd': "headers_ok (mem st') (insert (c, i, k) out)" if d: "debug cfg"
  proof -
    have ho: "headers_ok (mem st) out" using w d by (simp add: allocator_ok_def)
    have m': "mem st' = (mem st)((c, i) := Num k)" using d by (simp add: st')
    have "mem st' (c', i') = Num l" if "(c', i', l) \<in> insert (c, i, k) out" for c' i' l
    proof (cases "(c', i') = (c, i)")
      case True
      then have "(c, i, l) \<in> ?B" using that inF by auto
      moreover have "(c, i, k) \<in> ?B" using inF by simp
      ultimately have "l = k" using blocks_ok_start [OF bo] by blast
      then show ?thesis using True by (simp add: m')
    next
      case False
      then have "(c', i', l) \<in> out" using that by auto
      then have "mem st (c', i') = Num l" using ho by (auto simp add: headers_ok_def)
      then show ?thesis using False by (auto simp add: m')
    qed
    then show ?thesis unfolding headers_ok_def by blast
  qed
  have flds: "freePtr st' = freePtr st" "endFree st' = endFree st" "memPool st' = memPool st"
    "pool_next st' = pool_next st" "live st' = live st" "created st' = created st"
    "cursor st' = cursor st"
    by (simp_all add: st' cursor_def)
  show "allocator_ok cfg st' ps (fl(k := tl (fl k))) (insert (c, i, k) out)"
    unfolding allocator_ok_def flds B
    using w lo' dj' hd' by (simp add: allocator_ok_def)
qed

lemma free_list_frame:
  "(\<And>b. b \<in> set fs \<Longrightarrow> m' b = m b) \<Longrightarrow> free_list m' h fs = free_list m h fs"
  by (induction fs arbitrary: h) simp_all

lemma pool_chain_frame:
  "(\<And>q. q \<in> set ps \<Longrightarrow> nxt' q = nxt q) \<Longrightarrow> pool_chain nxt' p ps = pool_chain nxt p ps"
  by (induction ps arbitrary: p) simp_all

lemma pool_chain_head: "pool_chain nxt (Some p) ps \<Longrightarrow> \<exists>qs. ps = p # qs"
  by (cases ps) simp_all

lemma allocator_okD:
  assumes "allocator_ok cfg st ps fl out"
  shows "freePtr st = Addr (memPool st) (cursor st)" "0 \<le> cursor st"
    "cursor st \<le> int (CHUNK_SIZE cfg)" "endFree st = pool_end cfg (memPool st)"
    "pool_chain (pool_next st) (Some (memPool st)) ps" "distinct ps"
    "\<And>q. q \<in> set ps \<Longrightarrow> q \<in> live st \<and> q < created st"
    "lists_ok (mem st) (freeMem st) fl" "free_blocks fl \<inter> out = {}"
    "blocks_ok (CHUNK_SIZE cfg) (memPool st) (cursor st) ps (free_blocks fl \<union> out)"
    "debug cfg \<Longrightarrow> headers_ok (mem st) out"
  using assms by (simp_all add: allocator_ok_def)

lemma allocator_okI:
  assumes "freePtr st = Addr (memPool st) f" "0 \<le> f"
    "f \<le> int (CHUNK_SIZE cfg)" "endFree st = pool_end cfg (memPool st)"
    "pool_chain (pool_next st) (Some (memPool st)) ps" "distinct ps"
    "\<And>q. q \<in> set ps \<Longrightarrow> q \<in> live st \<and> q < created st"
    "lists_ok (mem st) (freeMem st) fl" "free_blocks fl \<inter> out = {}"
    "blocks_ok (CHUNK_SIZE cfg) (memPool st) f ps (free_blocks fl \<union> out)"
    "debug cfg \<Longrightarrow> headers_ok (mem st) out"
  shows "allocator_ok cfg st ps fl out"
proof -
  have "cursor st = f" using assms(1) by (simp add: cursor_def)
  then show ?thesis using assms by (simp add: allocator_ok_def)
qed

lemma blocks_okI:
  assumes "\<And>c i k. (c, i, k) \<in> B \<Longrightarrow>
             c \<in> set ps \<and> 0 \<le> i \<and> 0 < k \<and> i + int k \<le> (if c = mp then f else int N)"
    and "\<And>a b. a \<in> B \<Longrightarrow> b \<in> B \<Longrightarrow> overlap a b \<Longrightarrow> a = b"
  shows "blocks_ok N mp f ps B"
  unfolding blocks_ok_def using assms by blast

lemma overlap_sym: "overlap a b \<Longrightarrow> overlap b a"
  by (auto simp add: overlap_def split: prod.splits)

lemma headers_okD: "headers_ok m out \<Longrightarrow> (c, i, k) \<in> out \<Longrightarrow> m (c, i) = Num k"
  by (auto simp add: headers_ok_def)

lemma headers_okI: "(\<And>c i k. (c, i, k) \<in> out \<Longrightarrow> m (c, i) = Num k) \<Longrightarrow> headers_ok m out"
  by (auto simp add: headers_ok_def)

lemma lists_okD:
  "lists_ok m fm fl \<Longrightarrow> free_list m (array_get fm j) (fl j)"
  "lists_ok m fm fl \<Longrightarrow> distinct (fl j)"
  by (simp_all add: lists_ok_def)

lemma lists_okI:
  "(\<And>j. free_list m (array_get fm j) (fl j)) \<Longrightarrow> (\<And>j. distinct (fl j)) \<Longrightarrow> lists_ok m fm fl"
  by (simp add: lists_ok_def)

text \<open>The words from the cursor on belong to no block.\<close>

lemma allocator_ok_below_cursor:
  assumes "allocator_ok cfg st ps fl out" "(memPool st, i, l) \<in> free_blocks fl \<union> out"
  shows "0 < l" "i + int l \<le> cursor st"
  using blocks_okD [OF allocator_okD(10) [OF assms(1)] assms(2)] by simp_all

lemma allocator_ok_bump:
  assumes w: "allocator_ok cfg st ps fl out" and k: "0 < k" "cursor st + int k \<le> int (CHUNK_SIZE cfg)"
    and f1: "freePtr st' = Addr (memPool st) (cursor st + int k)"
    and f2: "endFree st' = endFree st" "memPool st' = memPool st" "pool_next st' = pool_next st"
       "live st' = live st" "created st' = created st" "freeMem st' = freeMem st"
    and m1: "\<And>a. a \<noteq> (memPool st, cursor st) \<Longrightarrow> mem st' a = mem st a"
    and m2: "debug cfg \<Longrightarrow> mem st' (memPool st, cursor st) = Num k"
  shows "allocator_ok cfg st' ps fl (insert (memPool st, cursor st, k) out)"
    and "(memPool st, cursor st, k) \<notin> free_blocks fl \<union> out"
proof -
  note d = allocator_okD [OF w]
  let ?mp = "memPool st" and ?f = "cursor st" and ?B = "free_blocks fl \<union> out"
  let ?new = "(?mp, ?f, k)"
  have nostart: "(?mp, ?f, l) \<notin> ?B" for l
    using allocator_ok_below_cursor [OF w, of ?f l] by auto
  then show new: "?new \<notin> ?B" .
  obtain qs where ps: "ps = ?mp # qs" using pool_chain_head [OF d(5)] by blast
  have nolist: "(?mp, ?f) \<notin> set (fl j)" for j
    using nostart [of j] by (simp add: free_blocks_iff)
  have B': "free_blocks fl \<union> insert ?new out = insert ?new ?B" by blast
  have bo: "blocks_ok (CHUNK_SIZE cfg) ?mp (?f + int k) ps (insert ?new ?B)"
  proof (rule blocks_okI)
    fix c i l assume "(c, i, l) \<in> insert ?new ?B"
    then consider "(c, i, l) = ?new" | "(c, i, l) \<in> ?B" by blast
    then show "c \<in> set ps \<and> 0 \<le> i \<and> 0 < l \<and>
        i + int l \<le> (if c = ?mp then ?f + int k else int (CHUNK_SIZE cfg))"
    proof cases
      case 1
      then show ?thesis using k d(2) ps by simp
    next
      case 2
      then show ?thesis using blocks_okD [OF d(10) 2] by (simp split: if_splits)
    qed
  next
    fix a b assume a: "a \<in> insert ?new ?B" and b: "b \<in> insert ?new ?B" and o: "overlap a b"
    have no: "\<not> overlap ?new x" if "x \<in> ?B" for x
    proof -
      obtain c i l where x: "x = (c, i, l)" by (cases x) auto
      show ?thesis using allocator_ok_below_cursor [OF w, of i l] that
        by (auto simp add: x overlap_def)
    qed
    show "a = b"
    proof (cases "a = ?new")
      case True
      then show ?thesis using no [of b] b o by auto
    next
      case False
      then have aB: "a \<in> ?B" using a by blast
      show ?thesis
      proof (cases "b = ?new")
        case True
        then show ?thesis using no [OF aB] overlap_sym [OF o] by simp
      next
        case False
        then have "b \<in> ?B" using b by blast
        then show ?thesis using blocks_ok_overlap [OF d(10) aB _ o] by simp
      qed
    qed
  qed
  have lo: "lists_ok (mem st') (freeMem st') fl"
  proof (rule lists_okI)
    fix j
    have "free_list (mem st') (array_get (freeMem st) j) (fl j) =
          free_list (mem st) (array_get (freeMem st) j) (fl j)"
    proof (rule free_list_frame)
      fix b assume "b \<in> set (fl j)"
      then have "b \<noteq> (?mp, ?f)" using nolist [of j] by auto
      then show "mem st' b = mem st b" by (rule m1)
    qed
    then show "free_list (mem st') (array_get (freeMem st') j) (fl j)"
      using lists_okD(1) [OF d(8)] by (simp add: f2)
    show "distinct (fl j)" using lists_okD(2) [OF d(8)] .
  qed
  have hd: "headers_ok (mem st') (insert ?new out)" if dbg: "debug cfg"
  proof (rule headers_okI)
    fix c i l assume "(c, i, l) \<in> insert ?new out"
    then consider "(c, i, l) = ?new" | "(c, i, l) \<in> out" by blast
    then show "mem st' (c, i) = Num l"
    proof cases
      case 1
      then show ?thesis using m2 [OF dbg] by simp
    next
      case 2
      then have "(c, i) \<noteq> (?mp, ?f)" using nostart [of l] by auto
      then show ?thesis using m1 headers_okD [OF d(11) [OF dbg] 2] by simp
    qed
  qed
  have dj: "free_blocks fl \<inter> insert ?new out = {}"
    using d(9) new by blast
  show "allocator_ok cfg st' ps fl (insert ?new out)"
  proof (rule allocator_okI [where f = "?f + int k"])
    show "freePtr st' = Addr (memPool st') (?f + int k)" by (simp add: f1 f2)
    show "0 \<le> ?f + int k" using d(2) by simp
    show "?f + int k \<le> int (CHUNK_SIZE cfg)" by (rule k(2))
    show "endFree st' = pool_end cfg (memPool st')" using d(4) by (simp add: f2)
    show "pool_chain (pool_next st') (Some (memPool st')) ps" using d(5) by (simp add: f2)
    show "distinct ps" by (rule d(6))
    show "q \<in> live st' \<and> q < created st'" if "q \<in> set ps" for q using d(7) [OF that] by (simp add: f2)
    show "lists_ok (mem st') (freeMem st') fl" by (rule lo)
    show "free_blocks fl \<inter> insert ?new out = {}" by (rule dj)
    show "blocks_ok (CHUNK_SIZE cfg) (memPool st') (?f + int k) ps (free_blocks fl \<union> insert ?new out)"
      using bo by (simp only: B' f2)
    show "headers_ok (mem st') (insert ?new out)" if "debug cfg" using hd [OF that] .
  qed
qed

lemma allocator_ok_pool_of_block:
  assumes "allocator_ok cfg st ps fl out" "(c, i, l) \<in> free_blocks fl \<union> out"
  shows "c \<in> set ps" "c < created st" "0 < l" "0 \<le> i" "i + int l \<le> int (CHUNK_SIZE cfg)"
proof -
  note d = allocator_okD [OF assms(1)]
  note b = blocks_okD [OF d(10) assms(2)]
  show "c \<in> set ps" "0 < l" "0 \<le> i" using b by simp_all
  then show "c < created st" using d(7) by simp
  show "i + int l \<le> int (CHUNK_SIZE cfg)" using b d(3) by (simp split: if_splits)
qed

lemma allocator_ok_extend:
  assumes w: "allocator_ok cfg st ps fl out" and k: "0 < k" "k \<le> CHUNK_SIZE cfg"
    and t: "t = 0 \<or> cursor st + int t \<le> int (CHUNK_SIZE cfg)"
    and f1: "created st' = Suc (created st)" "live st' = insert (created st) (live st)"
       "pool_next st' = (pool_next st)(created st := Some (memPool st))" "memPool st' = created st"
       "freePtr st' = Addr (created st) (int k)"
       "endFree st' = Addr (created st) (int (CHUNK_SIZE cfg))"
    and fm: "\<And>j. array_get (freeMem st') j =
               (if t \<noteq> 0 \<and> j = t then Addr (memPool st) (cursor st) else array_get (freeMem st) j)"
    and m1: "\<And>a. a \<noteq> (memPool st, cursor st) \<Longrightarrow> a \<noteq> (created st, 0) \<Longrightarrow> mem st' a = mem st a"
    and m2: "t \<noteq> 0 \<Longrightarrow> mem st' (memPool st, cursor st) = array_get (freeMem st) t"
    and m3: "debug cfg \<Longrightarrow> mem st' (created st, 0) = Num k"
    and fl': "fl' = (if t = 0 then fl else fl(t := (memPool st, cursor st) # fl t))"
  shows "allocator_ok cfg st' (created st # ps) fl' (insert (created st, 0, k) out)"
    and "(created st, 0, k) \<notin> free_blocks fl \<union> out"
proof -
  note d = allocator_okD [OF w]
  let ?mp = "memPool st" and ?f = "cursor st" and ?B = "free_blocks fl \<union> out"
  let ?p = "created st" and ?N = "CHUNK_SIZE cfg"
  let ?new = "(?p, 0, k)"
  let ?T = "if t = 0 then {} else {(?mp, ?f, t)}"
  obtain qs where ps: "ps = ?mp # qs" using pool_chain_head [OF d(5)] by blast
  have pfresh: "?p \<notin> set ps" using d(7) by blast
  then have mpp: "?mp \<noteq> ?p" using ps by auto
  have nostart: "(?mp, ?f, l) \<notin> ?B" for l
    using allocator_ok_below_cursor [OF w, of ?f l] by auto
  have nopool: "(?p, i, l) \<notin> ?B" for i l
    using allocator_ok_pool_of_block(1) [OF w, of ?p i l] pfresh by blast
  show new: "?new \<notin> ?B" by (rule nopool)
  have nolist: "(?mp, ?f) \<notin> set (fl j)" "(?p, i) \<notin> set (fl j)" for i j
    using nostart [of j] nopool [of i j] by (simp_all add: free_blocks_iff)
  have fb: "free_blocks fl' = ?T \<union> free_blocks fl"
    by (cases "t = 0") (simp_all add: fl' free_blocks_push)
  have B': "free_blocks fl' \<union> insert ?new out = insert ?new (?T \<union> ?B)"
    unfolding fb by blast
  have Tin: "c = ?mp \<and> i = ?f \<and> l = t \<and> 0 < t \<and> ?f + int t \<le> int ?N" if "(c, i, l) \<in> ?T" for c i l
    using that t by (auto split: if_splits)
  have frame: "free_list (mem st') h (fl j) = free_list (mem st) h (fl j)" for h j
  proof (rule free_list_frame)
    fix b assume "b \<in> set (fl j)"
    then have "b \<noteq> (?mp, ?f)" "b \<noteq> (?p, 0)" using nolist(1) [of j] nolist(2) [of 0 j] by auto
    then show "mem st' b = mem st b" by (rule m1)
  qed
  have bo: "blocks_ok ?N ?p (int k) (?p # ps) (insert ?new (?T \<union> ?B))"
  proof (rule blocks_okI)
    fix c i l assume "(c, i, l) \<in> insert ?new (?T \<union> ?B)"
    then consider "(c, i, l) = ?new" | "(c, i, l) \<in> ?T" | "(c, i, l) \<in> ?B" by blast
    then show "c \<in> set (?p # ps) \<and> 0 \<le> i \<and> 0 < l \<and>
        i + int l \<le> (if c = ?p then int k else int ?N)"
    proof cases
      case 1
      then show ?thesis using k by simp
    next
      case 2
      then show ?thesis using Tin [OF 2] d(2) ps mpp by simp
    next
      case 3
      then show ?thesis using allocator_ok_pool_of_block [OF w 3] pfresh by auto
    qed
  next
    fix a b assume a: "a \<in> insert ?new (?T \<union> ?B)" and b: "b \<in> insert ?new (?T \<union> ?B)"
      and o: "overlap a b"
    have no1: "\<not> overlap ?new x" if "x \<in> ?T \<union> ?B" for x
    proof -
      obtain c i l where x: "x = (c, i, l)" by (cases x) auto
      have "c \<noteq> ?p" using that nopool [of i l] Tin [of c i l] mpp by (auto simp add: x)
      then show ?thesis by (auto simp add: x overlap_def)
    qed
    have no2: "\<not> overlap y x" if "x \<in> ?B" "y \<in> ?T" for x y
    proof -
      obtain c i l where x: "x = (c, i, l)" by (cases x) auto
      obtain c' i' l' where y: "y = (c', i', l')" by (cases y) auto
      show ?thesis using allocator_ok_below_cursor [OF w, of i l] that Tin [of c' i' l']
        by (auto simp add: x y overlap_def)
    qed
    have TT: "x = y" if "x \<in> ?T" "y \<in> ?T" for x y
      using that by (auto split: if_splits)
    consider "a = ?new" | "a \<in> ?T" | "a \<in> ?B" using a by blast
    then show "a = b"
    proof cases
      case 1
      then show ?thesis using no1 [of b] b o by auto
    next
      case 2
      consider "b = ?new" | "b \<in> ?T" | "b \<in> ?B" using b by blast
      then show ?thesis
      proof cases
        case 1
        then show ?thesis using no1 [of a] 2 overlap_sym [OF o] by auto
      next
        case 2
        then show ?thesis using TT \<open>a \<in> ?T\<close> by blast
      next
        case 3
        then show ?thesis using no2 [OF 3 \<open>a \<in> ?T\<close>] o by simp
      qed
    next
      case 3
      consider "b = ?new" | "b \<in> ?T" | "b \<in> ?B" using b by blast
      then show ?thesis
      proof cases
        case 1
        then show ?thesis using no1 [of a] 3 overlap_sym [OF o] by auto
      next
        case 2
        then show ?thesis using no2 [OF 3 2] overlap_sym [OF o] by simp
      next
        case 3
        then show ?thesis using blocks_ok_overlap [OF d(10) \<open>a \<in> ?B\<close> 3 o] by simp
      qed
    qed
  qed
  have lo: "lists_ok (mem st') (freeMem st') fl'"
  proof (rule lists_okI)
    fix j
    show "free_list (mem st') (array_get (freeMem st') j) (fl' j)"
    proof (cases "t \<noteq> 0 \<and> j = t")
      case True
      have "free_list (mem st') (array_get (freeMem st) t) (fl t)"
        using lists_okD(1) [OF d(8), of t] by (simp add: frame)
      then show ?thesis using True m2 by (simp add: fl' fm getNext_def)
    next
      case False
      have "free_list (mem st') (array_get (freeMem st) j) (fl j)"
        using lists_okD(1) [OF d(8), of j] by (simp add: frame)
      then show ?thesis using False by (auto simp add: fl' fm)
    qed
    show "distinct (fl' j)"
      using lists_okD(2) [OF d(8), of j] nolist(1) [of j] by (auto simp add: fl')
  qed
  have hd: "headers_ok (mem st') (insert ?new out)" if dbg: "debug cfg"
  proof (rule headers_okI)
    fix c i l assume "(c, i, l) \<in> insert ?new out"
    then consider "(c, i, l) = ?new" | "(c, i, l) \<in> out" by blast
    then show "mem st' (c, i) = Num l"
    proof cases
      case 1
      then show ?thesis using m3 [OF dbg] by simp
    next
      case 2
      then have "(c, i) \<noteq> (?mp, ?f)" "(c, i) \<noteq> (?p, 0)"
        using nostart [of l] nopool [of 0 l] by auto
      then show ?thesis using m1 headers_okD [OF d(11) [OF dbg] 2] by simp
    qed
  qed
  have dj: "free_blocks fl' \<inter> insert ?new out = {}"
  proof -
    have "?T \<inter> out = {}" using nostart by (auto split: if_splits)
    moreover have "?new \<notin> ?T" using mpp by (auto split: if_splits)
    ultimately show ?thesis unfolding fb using d(9) new by blast
  qed
  show "allocator_ok cfg st' (?p # ps) fl' (insert ?new out)"
  proof (rule allocator_okI [where f = "int k"])
    show "freePtr st' = Addr (memPool st') (int k)" by (simp add: f1)
    show "0 \<le> int k" by simp
    show "int k \<le> int ?N" using k by simp
    show "endFree st' = pool_end cfg (memPool st')" by (simp add: f1 pool_end_def)
    have "pool_chain (pool_next st') (Some ?mp) ps = pool_chain (pool_next st) (Some ?mp) ps"
      by (rule pool_chain_frame) (use pfresh in \<open>auto simp add: f1\<close>)
    then show "pool_chain (pool_next st') (Some (memPool st')) (?p # ps)"
      using d(5) by (simp add: f1)
    show "distinct (?p # ps)" using d(6) pfresh by simp
    show "q \<in> live st' \<and> q < created st'" if "q \<in> set (?p # ps)" for q
      using that d(7) [of q] by (auto simp add: f1)
    show "lists_ok (mem st') (freeMem st') fl'" by (rule lo)
    show "free_blocks fl' \<inter> insert ?new out = {}" by (rule dj)
    show "blocks_ok ?N (memPool st') (int k) (?p # ps) (free_blocks fl' \<union> insert ?new out)"
      using bo by (simp only: B' f1)
    show "headers_ok (mem st') (insert ?new out)" if "debug cfg" using hd [OF that] .
  qed
qed

lemma allocator_ok_tail:
  assumes w: "allocator_ok cfg st ps fl out" and b: "(c, i, k) \<in> out"
    and e: "Addr c (i + int k) = freePtr st"
    and f1: "freePtr st' = Addr c i"
    and f2: "endFree st' = endFree st" "memPool st' = memPool st" "pool_next st' = pool_next st"
       "live st' = live st" "created st' = created st" "freeMem st' = freeMem st"
       "mem st' = mem st"
  shows "allocator_ok cfg st' ps fl (out - {(c, i, k)})"
proof -
  note d = allocator_okD [OF w]
  let ?mp = "memPool st" and ?f = "cursor st" and ?B = "free_blocks fl \<union> out"
  let ?b = "(c, i, k)"
  have c: "c = ?mp" and ik: "i + int k = ?f" using e d(1) by simp_all
  have bB: "?b \<in> ?B" using b by blast
  note bb = allocator_ok_pool_of_block [OF w bB]
  have bfree: "?b \<notin> free_blocks fl" using d(9) b by blast
  have B': "free_blocks fl \<union> (out - {?b}) = ?B - {?b}" using bfree by blast
  have bo: "blocks_ok (CHUNK_SIZE cfg) ?mp i ps (?B - {?b})"
  proof (rule blocks_okI)
    fix c' i' l assume x: "(c', i', l) \<in> ?B - {?b}"
    then have xB: "(c', i', l) \<in> ?B" by blast
    note xx = blocks_okD [OF d(10) xB]
    have "i' + int l \<le> i" if "c' = ?mp"
    proof (rule ccontr)
      assume "\<not> i' + int l \<le> i"
      then have "overlap (c', i', l) ?b" using xx that c ik by (simp add: overlap_def)
      then have "(c', i', l) = ?b" by (rule blocks_ok_overlap [OF d(10) xB bB])
      then show False using x by blast
    qed
    then show "c' \<in> set ps \<and> 0 \<le> i' \<and> 0 < l \<and>
        i' + int l \<le> (if c' = ?mp then i else int (CHUNK_SIZE cfg))"
      using xx by auto
  next
    fix x y assume "x \<in> ?B - {?b}" "y \<in> ?B - {?b}" "overlap x y"
    then show "x = y" using blocks_ok_overlap [OF d(10), of x y] by blast
  qed
  have hd: "headers_ok (mem st') (out - {?b})" if dbg: "debug cfg"
    using d(11) [OF dbg] by (auto simp add: headers_ok_def f2)
  show ?thesis
  proof (rule allocator_okI [where f = i])
    show "freePtr st' = Addr (memPool st') i" by (simp add: f1 f2 c)
    show "0 \<le> i" by (rule bb(4))
    show "i \<le> int (CHUNK_SIZE cfg)" using bb(5) by simp
    show "endFree st' = pool_end cfg (memPool st')" using d(4) by (simp add: f2)
    show "pool_chain (pool_next st') (Some (memPool st')) ps" using d(5) by (simp add: f2)
    show "distinct ps" by (rule d(6))
    show "q \<in> live st' \<and> q < created st'" if "q \<in> set ps" for q using d(7) [OF that] by (simp add: f2)
    show "lists_ok (mem st') (freeMem st') fl" using d(8) by (simp add: f2)
    show "free_blocks fl \<inter> (out - {?b}) = {}" using d(9) by blast
    show "blocks_ok (CHUNK_SIZE cfg) (memPool st') i ps (free_blocks fl \<union> (out - {?b}))"
      using bo by (simp only: B' f2)
    show "headers_ok (mem st') (out - {?b})" if "debug cfg" using hd [OF that] .
  qed
qed

lemma allocator_ok_push:
  assumes w: "allocator_ok cfg st ps fl out" and b: "(c, i, k) \<in> out"
    and f2: "freePtr st' = freePtr st" "endFree st' = endFree st" "memPool st' = memPool st"
       "pool_next st' = pool_next st" "live st' = live st" "created st' = created st"
    and fm: "\<And>j. array_get (freeMem st') j = (if j = k then Addr c i else array_get (freeMem st) j)"
    and m1: "\<And>a. a \<noteq> (c, i) \<Longrightarrow> mem st' a = mem st a"
    and m2: "mem st' (c, i) = array_get (freeMem st) k"
  shows "allocator_ok cfg st' ps (fl(k := (c, i) # fl k)) (out - {(c, i, k)})"
proof -
  note d = allocator_okD [OF w]
  let ?B = "free_blocks fl \<union> out"
  let ?b = "(c, i, k)"
  let ?fl = "fl(k := (c, i) # fl k)"
  have bB: "?b \<in> ?B" using b by blast
  have bfree: "?b \<notin> free_blocks fl" using d(9) b by blast
  have only: "l = k" if "(c, i, l) \<in> ?B" for l
    using blocks_ok_start [OF d(10) bB that] .
  have nolist: "(c, i) \<notin> set (fl j)" for j
  proof
    assume a: "(c, i) \<in> set (fl j)"
    then have "(c, i, j) \<in> ?B" by (simp add: free_blocks_iff)
    then have "j = k" by (rule only)
    then show False using a bfree by (simp add: free_blocks_iff)
  qed
  have fb: "free_blocks ?fl = insert ?b (free_blocks fl)" by (rule free_blocks_push)
  have B': "free_blocks ?fl \<union> (out - {?b}) = ?B" unfolding fb using b by blast
  have frame: "free_list (mem st') h (fl j) = free_list (mem st) h (fl j)" for h j
  proof (rule free_list_frame)
    fix x assume "x \<in> set (fl j)"
    then have "x \<noteq> (c, i)" using nolist [of j] by auto
    then show "mem st' x = mem st x" by (rule m1)
  qed
  have lo: "lists_ok (mem st') (freeMem st') ?fl"
  proof (rule lists_okI)
    fix j
    have "free_list (mem st') (array_get (freeMem st) j) (fl j)"
      using lists_okD(1) [OF d(8), of j] by (simp add: frame)
    then show "free_list (mem st') (array_get (freeMem st') j) (?fl j)"
      by (auto simp add: fm m2 getNext_def)
    show "distinct (?fl j)"
      using lists_okD(2) [OF d(8), of j] nolist [of j] by auto
  qed
  have hd: "headers_ok (mem st') (out - {?b})" if dbg: "debug cfg"
  proof (rule headers_okI)
    fix c' i' l assume x: "(c', i', l) \<in> out - {?b}"
    then have "(c', i') \<noteq> (c, i)" using only [of l] by auto
    then show "mem st' (c', i') = Num l"
      using m1 headers_okD [OF d(11) [OF dbg], of c' i' l] x by simp
  qed
  show ?thesis
  proof (rule allocator_okI [where f = "cursor st"])
    show "freePtr st' = Addr (memPool st') (cursor st)" using d(1) by (simp add: f2)
    show "0 \<le> cursor st" by (rule d(2))
    show "cursor st \<le> int (CHUNK_SIZE cfg)" by (rule d(3))
    show "endFree st' = pool_end cfg (memPool st')" using d(4) by (simp add: f2)
    show "pool_chain (pool_next st') (Some (memPool st')) ps" using d(5) by (simp add: f2)
    show "distinct ps" by (rule d(6))
    show "q \<in> live st' \<and> q < created st'" if "q \<in> set ps" for q using d(7) [OF that] by (simp add: f2)
    show "lists_ok (mem st') (freeMem st') ?fl" by (rule lo)
    show "free_blocks ?fl \<inter> (out - {?b}) = {}" unfolding fb using d(9) by blast
    show "blocks_ok (CHUNK_SIZE cfg) (memPool st') (cursor st) ps (free_blocks ?fl \<union> (out - {?b}))"
      using d(10) by (simp only: B' f2)
    show "headers_ok (mem st') (out - {?b})" if "debug cfg" using hd [OF that] .
  qed
qed

lemma allocator_ok_handed_out:
  assumes w: "allocator_ok cfg st ps fl out" and b: "(c, i, k) \<in> out" and dbg: "debug cfg"
  shows "handed_out cfg st ps (fl k) (c, i) k"
proof -
  note d = allocator_okD [OF w]
  have bB: "(c, i, k) \<in> free_blocks fl \<union> out" using b by blast
  note bb = blocks_okD [OF d(10) bB]
  obtain qs where ps: "ps = memPool st # qs" using pool_chain_head [OF d(5)] by blast
  have "in_pools cfg st ps (Addr c i)"
  proof (cases "c = memPool st")
    case True
    then show ?thesis using bb d(1) by (simp add: in_pools_def within_def pool_mem_def)
  next
    case False
    then have "c \<in> set qs" using bb ps by simp
    moreover have "within (Addr c i) (pool_mem c) (pool_end cfg c)"
      using bb False by (simp add: within_def pool_mem_def pool_end_def)
    ultimately show ?thesis by (auto simp add: in_pools_def ps list_ex_iff)
  qed
  moreover have "(c, i) \<notin> set (fl k)" using d(9) b by (auto simp add: free_blocks_def)
  ultimately show ?thesis
    using d(1,5,6) lists_okD(1) [OF d(8), of k] headers_okD [OF d(11) [OF dbg] b]
    by (simp add: handed_out_def)
qed

text \<open>
  \<open>allocate\<close> returns a block that was not handed out and keeps the invariant with the
  block added to the blocks handed out; \<open>deallocate\<close> of a block handed out returns, in
  the debug configuration too, and keeps the invariant with the block removed. The
  constructor establishes the invariant and \<open>reset\<close> re-establishes it, with no block
  handed out.
\<close>


lemma arch_size_memLeft:
  assumes "0 \<le> d"
  shows "nat (d mod 2 ^ 32) \<noteq> 0 \<Longrightarrow> 0 < arch_size cfg (nat (d mod 2 ^ 32))"
    and "int (arch_size cfg (nat (d mod 2 ^ 32))) \<le> d"
proof -
  let ?m = "nat (d mod 2 ^ 32)"
  have m: "int ?m \<le> d" "?m < 2 ^ 32"
    using assms zmod_le_nonneg_dividend [of d "2 ^ 32"] by (simp_all add: nat_less_iff)
  then have "(?m + 1) mod 2 ^ 64 = ?m + 1" by simp
  then have a: "arch_size cfg ?m = (case arch cfg of Arch64 \<Rightarrow> (?m + 1) div 2 | Arch32 \<Rightarrow> ?m)"
    unfolding arch_size_def by (cases "arch cfg") simp_all
  show "0 < arch_size cfg ?m" if "?m \<noteq> 0"
    using that unfolding a by (cases "arch cfg") auto
  have "arch_size cfg ?m \<le> ?m" unfolding a by (cases "arch cfg") auto
  then show "int (arch_size cfg ?m) \<le> d" using m(1) by linarith
qed

lemma allocate_keeps_ok:
  assumes w: "allocator_ok cfg st ps fl out" and n: "0 < n" "n \<le> CHUNK_SIZE cfg \<or> \<not> debug cfg"
    and k: "k = block_words cfg n" "0 < k" "k \<le> CHUNK_SIZE cfg"
  shows "\<exists>c i st' ps' fl'. allocate cfg st n = Inr (Addr c (i + int (DEBUG_OFFSET cfg)), st') \<and>
           allocator_ok cfg st' ps' fl' (insert (c, i, k) out) \<and> (c, i, k) \<notin> out"
proof -
  note d = allocator_okD [OF w]
  let ?mp = "memPool st" and ?f = "cursor st" and ?N = "CHUNK_SIZE cfg"
  have e: "endFree st = Addr ?mp (int ?N)" using d(4) by (simp add: pool_end_def)
  note eq = allocate_cases [OF n d(1) e, folded k(1)]
  show ?thesis
  proof (cases "array_get (freeMem st) k = nullptr")
    case False
    then obtain c i where h: "array_get (freeMem st) k = Addr c i"
      using lists_okD(1) [OF d(8), of k] by (cases "fl k") auto
    let ?st' = "st\<lparr>freeMem := array_set (freeMem st) k (mem st (c, i)),
                    mem := (if debug cfg then (mem st)((c, i) := Num k) else mem st)\<rparr>"
    have "allocate cfg st n = Inr (Addr c (i + int (DEBUG_OFFSET cfg)), ?st')"
      by (simp add: eq Let_def h allocate_reuse_Addr)
    then show ?thesis using allocator_ok_reuse [OF w h refl] by blast
  next
    case True
    show ?thesis
    proof (cases "?f + int k \<le> int ?N")
      case fit: True
      let ?st' = "if debug cfg
                  then st\<lparr>freePtr := Addr ?mp (?f + int k), mem := (mem st)((?mp, ?f) := Num k)\<rparr>
                  else st\<lparr>freePtr := Addr ?mp (?f + int k)\<rparr>"
      have al: "allocate cfg st n = Inr (Addr ?mp (?f + int (DEBUG_OFFSET cfg)), ?st')"
        using True fit by (simp add: eq Let_def)
      have "allocator_ok cfg ?st' ps fl (insert (?mp, ?f, k) out)"
        by (rule allocator_ok_bump(1) [OF w k(2) fit]) simp_all
      moreover have "(?mp, ?f, k) \<notin> out"
        using allocator_ok_bump(2) [OF w k(2) fit, of ?st'] by simp
      ultimately show ?thesis using al by blast
    next
      case nofit: False
      let ?m = "nat ((int ?N - ?f) mod 2 ^ 32)"
      let ?t = "if ?m \<noteq> 0 then arch_size cfg ?m else 0"
      let ?p = "created st"
      let ?s0 = "st\<lparr>freePtr := Addr ?mp (?f + int k)\<rparr>"
      let ?s1 = "if ?m \<noteq> 0
                then ?s0\<lparr>freeMem := array_set (freeMem st) (arch_size cfg ?m) (Addr ?mp ?f),
                        mem := (mem st)((?mp, ?f) := array_get (freeMem st) (arch_size cfg ?m))\<rparr>
                else ?s0"
      let ?s2 = "?s1\<lparr>created := Suc ?p, live := insert ?p (live st),
                    pool_next := (pool_next st)(?p := Some ?mp), memPool := ?p,
                    freePtr := Addr ?p (int k), endFree := Addr ?p (int ?N)\<rparr>"
      let ?st' = "if debug cfg then ?s2\<lparr>mem := (mem ?s2)((?p, 0) := Num k)\<rparr> else ?s2"
      have al: "allocate cfg st n = Inr (Addr ?p (int (DEBUG_OFFSET cfg)), ?st')"
        using True nofit e
        by (simp add: eq Let_def allocate_extend_Addr [where c = ?mp and j = "int ?N"])
      have left: "0 \<le> int ?N - ?f" using d(3) by simp
      note ml = arch_size_memLeft [OF left, of cfg]
      obtain qs where ps: "ps = ?mp # qs" using pool_chain_head [OF d(5)] by blast
      have mpp: "?mp \<noteq> ?p" using d(7) [of ?mp] ps by auto
      have t: "?t = 0 \<or> ?f + int ?t \<le> int ?N" using ml(2) by auto
      let ?fl' = "if ?t = 0 then fl else fl(?t := (?mp, ?f) # fl ?t)"
      have "allocator_ok cfg ?st' (?p # ps) ?fl' (insert (?p, 0, k) out)"
      proof (rule allocator_ok_extend(1) [OF w k(2,3) t _ _ _ _ _ _ _ _ _ _ refl])
        show "\<And>j. array_get (freeMem ?st') j =
               (if ?t \<noteq> 0 \<and> j = ?t then Addr ?mp ?f else array_get (freeMem st) j)"
          using ml(1) by (auto simp add: array_get_set_other)
        show "\<And>a. a \<noteq> (?mp, ?f) \<Longrightarrow> a \<noteq> (?p, 0) \<Longrightarrow> mem ?st' a = mem st a"
          by auto
        show "?t \<noteq> 0 \<Longrightarrow> mem ?st' (?mp, ?f) = array_get (freeMem st) ?t"
          using mpp by (auto split: if_splits)
        show "debug cfg \<Longrightarrow> mem ?st' (?p, 0) = Num k" by simp
      qed simp_all
      moreover have "(?p, 0, k) \<notin> out"
        using allocator_ok_pool_of_block(2) [OF w, of ?p 0 k] by auto
      ultimately show ?thesis using al by (metis add.left_neutral)
    qed
  qed
qed

lemma deallocate_keeps_ok:
  assumes w: "allocator_ok cfg st ps fl out" and b: "(c, i, k) \<in> out"
    and n: "n \<noteq> 0" "k = block_words cfg n"
  shows "\<exists>st' fl'. deallocate cfg st (Addr c (i + int (DEBUG_OFFSET cfg))) n = Some (Inr st') \<and>
           allocator_ok cfg st' ps fl' (out - {(c, i, k)}) \<and>
           (freePtr st' = Addr c i \<or> array_get (freeMem st') k = Addr c i)"
proof -
  let ?D = "int (DEBUG_OFFSET cfg)"
  have h: "handed_out cfg st ps (fl k) (c, i + ?D - 1) k" if "debug cfg"
    using allocator_ok_handed_out [OF w b that] that by (simp add: DEBUG_OFFSET_def)
  let ?st' = "if Addr c (i + int k) = freePtr st then st\<lparr>freePtr := Addr c i\<rparr>
        else st\<lparr>freeMem := array_set (freeMem st) k (Addr c i),
                mem := (mem st)((c, i) := getNext (array_get (freeMem st) k))\<rparr>"
  have de: "deallocate cfg st (Addr c (i + ?D)) n = Some (Inr ?st')"
    using deallocate_handed_out [OF n(1) refl n(2) refl h] by simp
  show ?thesis
  proof (cases "Addr c (i + int k) = freePtr st")
    case True
    have "allocator_ok cfg (st\<lparr>freePtr := Addr c i\<rparr>) ps fl (out - {(c, i, k)})"
      by (rule allocator_ok_tail [OF w b True]) simp_all
    then show ?thesis using de True by auto
  next
    case False
    have "allocator_ok cfg (st\<lparr>freeMem := array_set (freeMem st) k (Addr c i),
                mem := (mem st)((c, i) := getNext (array_get (freeMem st) k))\<rparr>) ps
            (fl(k := (c, i) # fl k)) (out - {(c, i, k)})"
      by (rule allocator_ok_push [OF w b]) (auto simp add: array_get_set_other getNext_def)
    then show ?thesis using de False by auto
  qed
qed

lemma block_words_pos:
  assumes "config_ok cfg" "0 < n" "n \<le> CHUNK_SIZE cfg"
  shows "0 < block_words cfg n"
proof (cases "arch cfg")
  case Arch32
  then have "4 * n < 2 ^ 32" using assms by (simp add: config_ok_def word_bytes_def word_bits_def)
  then have "n + 1 < 2 ^ 32" by simp
  then show ?thesis using Arch32 assms(2)
    by (simp add: block_words_simps)
next
  case Arch64
  then have "8 * n < 2 ^ 64" using assms by (simp add: config_ok_def word_bytes_def word_bits_def)
  then have "n + 1 < 2 ^ 64" "(n + 1) div 2 + 1 < 2 ^ 64" by simp_all
  moreover have "0 < (n + 1) div 2" using assms(2) by simp
  ultimately show ?thesis using Arch64
    by (simp add: block_words_simps)
qed

lemma allocator_ok_new: "allocator_ok cfg (DataAllocator_new cfg h) [created h] (\<lambda>_. []) {}"
  by (rule allocator_okI [where f = 0])
    (simp_all add: DataAllocator_new_def new_object_def pool_mem_def pool_end_def lists_ok_def
      blocks_ok_def free_blocks_def headers_ok_def nullptr_def)

lemma allocator_ok_reset:
  assumes "allocator_ok cfg st ps fl out"
  shows "\<exists>st'. reset cfg st = Some st' \<and> allocator_ok cfg st' [memPool st] (\<lambda>_. []) {}"
proof -
  note d = allocator_okD [OF assms]
  obtain qs where ps: "ps = memPool st # qs" using pool_chain_head [OF d(5)] by blast
  have "memPool st \<in> live st \<and> memPool st < created st" using d(7) [of "memPool st"] ps by simp
  then have "allocator_ok cfg (st\<lparr>pool_next := (pool_next st)(memPool st := None),
              freePtr := pool_mem (memPool st), endFree := pool_end cfg (memPool st),
              freeMem := array_reset (freeMem st)\<rparr>) [memPool st] (\<lambda>_. []) {}"
    by (intro allocator_okI [where f = 0])
      (simp_all add: pool_mem_def lists_ok_def blocks_ok_def free_blocks_def headers_ok_def)
  then show ?thesis by (simp add: reset_result)
qed

text \<open>Every state the allocator reaches when it is used as intended satisfies the
  invariant.\<close>

lemma reachable_allocator_ok:
  assumes "config_ok cfg" "reachable cfg st out"
  shows "\<exists>ps fl. allocator_ok cfg st ps fl out"
  using assms(2)
proof (induction rule: reachable.induct)
  case (reachable_new h)
  show ?case using allocator_ok_new by blast
next
  case (reachable_allocate st out n c i st')
  then obtain ps fl where ok: "allocator_ok cfg st ps fl out" by blast
  have "0 < block_words cfg n"
    using block_words_pos [OF assms(1)] reachable_allocate by simp
  then obtain c' i' st'' ps' fl' where
    "allocate cfg st n = Inr (Addr c' (i' + int (DEBUG_OFFSET cfg)), st'')"
    "allocator_ok cfg st'' ps' fl' (insert (c', i', block_words cfg n) out)"
    using allocate_keeps_ok [OF ok, of n "block_words cfg n"] reachable_allocate by blast
  then show ?case using reachable_allocate by auto
next
  case (reachable_deallocate st out n c i st')
  then obtain ps fl where ok: "allocator_ok cfg st ps fl out" by blast
  show ?case
    using deallocate_keeps_ok [OF ok reachable_deallocate(3,2) refl] reachable_deallocate(4)
    by auto
next
  case (reachable_reset st out st')
  then obtain ps fl where ok: "allocator_ok cfg st ps fl out" by blast
  show ?case using allocator_ok_reset [OF ok] reachable_reset by auto
qed

lemma allocator_ok_fresh:
  assumes "allocator_ok cfg st ps fl (insert b out)" "b \<notin> out" "x \<in> free_blocks fl \<union> out"
  shows "\<not> overlap b x"
proof
  assume "overlap b x"
  then have "b = x"
    using blocks_ok_overlap [OF allocator_okD(10) [OF assms(1)], of b x] assms(3) by blast
  then show False using assms(2,3) allocator_okD(9) [OF assms(1)] by blast
qed

text \<open>A request never gets a word of a block that is handed out.\<close>

lemma allocate_next_disjoint:
  assumes "config_ok cfg" "allocator_ok cfg st ps fl out" "b \<in> out"
    and "0 < n" "n \<le> CHUNK_SIZE cfg" "block_words cfg n \<le> CHUNK_SIZE cfg"
  shows "\<exists>c i st'. allocate cfg st n = Inr (Addr c (i + int (DEBUG_OFFSET cfg)), st') \<and>
           \<not> overlap (c, i, block_words cfg n) b"
proof -
  have "0 < block_words cfg n" using block_words_pos [OF assms(1,4,5)] .
  then obtain c i st' ps' fl' where
    al: "allocate cfg st n = Inr (Addr c (i + int (DEBUG_OFFSET cfg)), st')" and
    ok: "allocator_ok cfg st' ps' fl' (insert (c, i, block_words cfg n) out)" and
    new: "(c, i, block_words cfg n) \<notin> out"
    using allocate_keeps_ok [OF assms(2,4) disjI1 [OF assms(5)] refl _ assms(6)] by blast
  have "\<not> overlap (c, i, block_words cfg n) b"
    using allocator_ok_fresh [OF ok new, of b] assms(3) by blast
  with al show ?thesis by blast
qed

lemma allocator_ok_usable:
  assumes "allocator_ok cfg st ps fl out" "(c, i, k) \<in> out"
  shows "c \<in> live st" "0 \<le> i" "i + int k \<le> int (CHUNK_SIZE cfg)"
proof -
  have b: "(c, i, k) \<in> free_blocks fl \<union> out" using assms(2) by blast
  show "c \<in> live st" using allocator_ok_pool_of_block(1) [OF assms(1) b] allocator_okD(7) [OF assms(1)] by blast
  show "0 \<le> i" "i + int k \<le> int (CHUNK_SIZE cfg)"
    using allocator_ok_pool_of_block(4,5) [OF assms(1) b] by simp_all
qed

lemma st_ABC_allocator_ok:
  "allocator_ok release32 st_ABC [1, 0] ((\<lambda>_. [])(2 := [(0, 6)])) {(0, 0, 3), (0, 3, 3), (1, 0, 3)}"
  by (rule allocator_okI [where f = 3])
    (auto simp add: pool_end_def lists_ok_def blocks_ok_def free_blocks_def headers_ok_def
      nullptr_def overlap_def getNext_def)

lemma st_debug_AB_allocator_ok:
  "allocator_ok debug32 st_debug_AB [0] (\<lambda>_. []) {(0, 0, 4), (0, 4, 4)}"
  by (rule allocator_okI [where f = 8])
    (auto simp add: pool_end_def lists_ok_def blocks_ok_def free_blocks_def headers_ok_def
      nullptr_def overlap_def getNext_def)

text \<open>
  In the 32-bit debug configuration a request of \<open>CHUNK_SIZE\<close> items passes the check of
  line 78 and needs \<open>CHUNK_SIZE + 1\<close> words, one more than a pool has: the block is
  placed at the start of a new pool and the cursor ends up behind the end of the pool.
\<close>

lemma allocate_debug32_overrun:
  "\<exists>st'. allocate debug32 st_A 8 = Inr (Addr 1 1, st') \<and> memPool st' = 1 \<and>
         freePtr st' = Addr 1 9 \<and> endFree st' = Addr 1 8"
  by (simp add: allocate_cases [where c = 0 and i = 0 and j = 8]
      allocate_extend_Addr [where c = 0 and j = 8] allocate_eval)
section \<open>The claims\<close>

text \<open>
  Claim C1, as amended. \<open>reset\<close> returns, and afterwards the chain that starts at
  \<open>memPool\<close> has exactly one pool: the pool that was current when \<open>reset\<close> was called,
  which is the pool allocated last, not the first one. Its \<open>next\<close> field is null, the
  cursor is at its start and the end of the free space at its end, every class of the
  free-list table is empty, and \<open>printStats\<close> counts one pool and no allocated byte.
  The counterexample runs the scenario of the specification: pool 0 is created by the
  constructor, pool 1 by the third request, and after \<open>reset\<close> the allocator holds pool 1
  while pool 0 is still among the live objects.
\<close>

theorem C1_reset_keeps_current_pool:
  "\<exists>st'. reset cfg st = Some st' \<and>
         memPool st' = memPool st \<and> pool_next st' (memPool st') = None \<and>
         freePtr st' = pool_mem (memPool st) \<and> endFree st' = pool_end cfg (memPool st) \<and>
         (\<forall>k. array_get (freeMem st') k = nullptr) \<and>
         (\<exists>s. printStats cfg st' = Some (Inr s) \<and> pools_allocated s = 1 \<and> memory_allocated s = 0)"
  by (simp add: reset_result printStats_after_reset)

theorem C1_reset_counterexample:
  "DataAllocator_new release32 heap0 = st_A \<and> memPool st_A = 0
   \<and> allocate release32 st_A 3 = Inr (Addr 0 0, st_A\<lparr>freePtr := Addr 0 3\<rparr>)
   \<and> allocate release32 (st_A\<lparr>freePtr := Addr 0 3\<rparr>) 3 = Inr (Addr 0 3, st_AB)
   \<and> allocate release32 st_AB 3 = Inr (Addr 1 0, st_ABC)
   \<and> (\<exists>st'. reset release32 st_ABC = Some st' \<and> memPool st' = 1 \<and> freePtr st' = Addr 1 0 \<and>
          live st' = {0, 1})"
  using reach_A reach_AB reach_ABC
  by (simp add: reset_result pool_mem_def)

theorem C1_reset_keeps_current_pool_witness:
  "\<exists>st'. reset release32 st_ABC = Some st' \<and> memPool st' = 1 \<and> pool_next st' 1 = None \<and>
         freePtr st' = Addr 1 0 \<and> endFree st' = Addr 1 8 \<and> array_get (freeMem st') 2 = Num 0"
  using C1_reset_keeps_current_pool [of release32 st_ABC]
  by (auto simp add: pool_mem_def pool_end_def nullptr_def)

text \<open>
  Claim C2 at its failing input. In the 64-bit release configuration with pools of eight
  words, two requests of six items leave a tail of two words at word 6 of pool 0. The
  third request of six items does not fit: line 110 files the tail under the class
  \<open>arch_size(2) = 1\<close>, not under class 2, and class 2 stays empty. A later request of four
  items, which occupies two words, is therefore not served from the tail but from the
  new pool, at its cursor.
\<close>

theorem C2_leftover_class_arch64:
  "allocate release64 st_A 6 = Inr (Addr 0 0, st64_A)
   \<and> allocate release64 st64_A 6 = Inr (Addr 0 3, st_AB)
   \<and> allocate release64 st_AB 6 = Inr (Addr 1 0, st64_ABC)
   \<and> array_get (freeMem st64_ABC) 2 = nullptr
   \<and> array_get (freeMem st64_ABC) 1 = Addr 0 6
   \<and> block_words release64 4 = 2
   \<and> (\<exists>st'. allocate release64 st64_ABC 4 = Inr (Addr 1 3, st') \<and> freePtr st' = Addr 1 5)"
proof -
  have "\<exists>st'. allocate release64 st64_ABC 4 = Inr (Addr 1 3, st') \<and> freePtr st' = Addr 1 5"
    by (simp add: allocate_cases [where c = 1 and i = 3 and j = 8] allocate_eval)
  then show ?thesis
    using reach64_A reach64_AB reach64_ABC by (simp add: nullptr_def block_words_simps)
qed

text \<open>
  Claim C3, as amended. In the debug configuration, take a block returned by
  \<open>allocate(n)\<close> with \<open>n\<close> not zero, and any later state in which the header word of the
  block is what \<open>allocate\<close> left there. Then \<open>deallocate(ptr, w)\<close> aborts at the assertion on
  the recorded size (line 136) exactly when \<open>w\<close> is not zero and occupies a number of
  words different from that of \<open>n\<close>. A size of zero returns at once, and in the 64-bit
  configuration two sizes with the same rounded-up half occupy the same number of
  words: the counterexample deallocates a block of three items with the sizes 4 and 0.
\<close>

theorem C3_wrong_size_abort:
  assumes "debug cfg" "0 < n" "allocate cfg st n = Inr (p, st0)"
    and "load st' (ptr_add cfg p (- 1)) = load st0 (ptr_add cfg p (- 1))"
  shows "deallocate cfg st' p w = Some (Inl (AssertFailed 136))
         \<longleftrightarrow> w \<noteq> 0 \<and> block_words cfg w \<noteq> block_words cfg n"
proof -
  obtain c i where p: "p = Addr c (i + 1)" and "mem st0 (c, i) = Num (block_words cfg n)"
    using allocate_debug_header [OF assms(1,2,3)] by blast
  then have hdr: "mem st' (c, i) = Num (block_words cfg n)"
    using assms(4) by simp
  show ?thesis
  proof (cases "w = 0")
    case True
    then show ?thesis by (simp add: deallocate_def)
  next
    case False
    then show ?thesis using assms(1) p hdr
      by (auto simp add: deallocate_def Let_def DEBUG_OFFSET_def block_words_def deallocate_body_Addr
          split: option.splits sum.splits bool.splits dest: hasInPools_error)
  qed
qed

theorem C3_wrong_size_counterexample:
  "allocate debug64 st_A 3 = Inr (Addr 0 1, st_debug64_A)
   \<and> deallocate debug64 st_debug64_A (Addr 0 1) 4 = Some (Inr (st_debug64_A\<lparr>freePtr := Addr 0 0\<rparr>))
   \<and> deallocate debug64 st_debug64_A (Addr 0 1) 0 = Some (Inr st_debug64_A)"
proof -
  have "deallocate debug64 st_debug64_A (Addr 0 1) 4 = Some (Inr (st_debug64_A\<lparr>freePtr := Addr 0 0\<rparr>))"
    by (simp add: deallocate_eval)
  moreover have "deallocate debug64 st_debug64_A (Addr 0 1) 0 = Some (Inr st_debug64_A)"
    by (simp add: deallocate_def)
  ultimately show ?thesis using reach_debug64_A by simp
qed

theorem C3_wrong_size_abort_witness:
  "deallocate debug64 st_debug64_A (Addr 0 1) 5 = Some (Inl (AssertFailed 136))
   \<and> deallocate debug64 st_debug64_A (Addr 0 1) 4 \<noteq> Some (Inl (AssertFailed 136))"
proof -
  have dbg: "debug debug64" and pos: "(0::nat) < 3" by simp_all
  note iff = C3_wrong_size_abort [OF dbg pos reach_debug64_A refl]
  have "deallocate debug64 st_debug64_A (Addr 0 1) 5 = Some (Inl (AssertFailed 136))"
    using iff [of 5] by (simp add: block_words_simps)
  moreover have "deallocate debug64 st_debug64_A (Addr 0 1) 4 \<noteq> Some (Inl (AssertFailed 136))"
    using iff [of 4] by (simp add: block_words_simps)
  ultimately show ?thesis by simp
qed

text \<open>
  Claim C4 at its failing input. In the 64-bit release configuration with pools of eight
  words, a request of six items and one of four items leave three words in pool 0. A
  request of eight items does not fit, and line 110 applies \<open>arch_size\<close> to the three
  words left, which is a count of native words already: the tail is filed under class
  \<open>arch_size(3) = 2\<close>, where \<open>3 = arch_size(6)\<close>. A request of six items, which occupies
  exactly three words, finds class 3 empty and is served at the cursor of the new pool,
  while a request of four items is handed the three-word tail as a block of two words.
\<close>

theorem C4_leftover_halved_arch64:
  "allocate release64 st_A 6 = Inr (Addr 0 0, st64_A)
   \<and> allocate release64 st64_A 4 = Inr (Addr 0 3, st64_A4)
   \<and> allocate release64 st64_A4 8 = Inr (Addr 1 0, st64_AX)
   \<and> array_get (freeMem st64_AX) 3 = nullptr
   \<and> array_get (freeMem st64_AX) 2 = Addr 0 5
   \<and> arch_size release64 6 = 3 \<and> arch_size release64 3 = 2
   \<and> (\<exists>st'. allocate release64 st64_AX 6 = Inr (Addr 1 4, st'))
   \<and> (\<exists>st'. allocate release64 st64_AX 4 = Inr (Addr 0 5, st'))"
proof -
  have "\<exists>st'. allocate release64 st64_AX 6 = Inr (Addr 1 4, st')"
    by (simp add: allocate_cases [where c = 1 and i = 4 and j = 8] allocate_eval)
  moreover have "\<exists>st'. allocate release64 st64_AX 4 = Inr (Addr 0 5, st')"
    by (simp add: allocate_cases [where c = 1 and i = 4 and j = 8] allocate_reuse_Addr allocate_eval)
  ultimately show ?thesis
    using reach64_A reach64_A4 reach64_AX by (simp add: nullptr_def arch_size_def)
qed

text \<open>
  Claim C5 at its failing input. In the 64-bit release configuration, after two requests
  of six items \<open>printStats\<close> reports 24 bytes allocated. A third request of six items
  followed at once by its \<open>deallocate\<close> leaves a report of 28 bytes allocated: the tail of
  two words went to the free list as a block of class 1, and one word is lost to the
  count.
\<close>

theorem C5_round_trip_arch64:
  "(\<exists>s. printStats release64 st_AB = Some (Inr s) \<and> memory_allocated s = 24)
   \<and> allocate release64 st_AB 6 = Inr (Addr 1 0, st64_ABC)
   \<and> deallocate release64 st64_ABC (Addr 1 0) 6 = Some (Inr (st64_ABC\<lparr>freePtr := Addr 1 0\<rparr>))
   \<and> (\<exists>s. printStats release64 (st64_ABC\<lparr>freePtr := Addr 1 0\<rparr>) = Some (Inr s) \<and>
           memory_allocated s = 28)"
proof -
  have before: "\<exists>s. printStats release64 st_AB = Some (Inr s) \<and> memory_allocated s = 24"
    by (simp add: printStats_def printStats_pools.simps printStats_classes_empty nullptr_def
        ptr_diff_def)
  have dealloc: "deallocate release64 st64_ABC (Addr 1 0) 6 =
      Some (Inr (st64_ABC\<lparr>freePtr := Addr 1 0\<rparr>))"
    by (simp add: deallocate_release deallocate_body_Addr block_words_simps)
  have "printStats_classes (st64_ABC\<lparr>freePtr := Addr 1 0\<rparr>) [0..<145] 0 = Some (Inr 1)"
    by (simp add: printStats_classes_single [where c = 1] nullptr_def printStats_list.simps getNext_def)
  then have after: "\<exists>s. printStats release64 (st64_ABC\<lparr>freePtr := Addr 1 0\<rparr>) = Some (Inr s) \<and>
           memory_allocated s = 28"
    by (simp add: printStats_def printStats_pools.simps ptr_diff_def)
  from before dealloc after reach64_ABC show ?thesis by simp
qed

text \<open>
  Claim C6. For a request of \<open>n\<close> items with \<open>0 < n \<le> CHUNK_SIZE\<close>, which occupies
  \<open>k = block_words cfg n\<close> words (the size after the architecture adaptation and the debug
  header), \<open>allocate\<close> tries its sources in a fixed order. If the free list of class \<open>k\<close>
  has a head, that block is returned, the head's link becomes the new head, and cursor
  and chain stay as they are. If the list is empty and cursor plus \<open>k\<close> does not pass
  the end of the current pool, the block at the cursor is returned and the cursor
  advances by \<open>k\<close>; table and chain stay as they are. Only if the list is empty and the
  block does not fit is a new pool created and put in front of the chain, and the block
  at its base is returned. The pointer returned lies \<open>DEBUG_OFFSET\<close> words into the block.
\<close>

theorem C6_allocate_order:
  assumes "0 < n" "n \<le> CHUNK_SIZE cfg"
    and "freePtr st = Addr c i" "endFree st = Addr c j"
    and "k = block_words cfg n" "h = array_get (freeMem st) k"
  shows "(\<forall>d l. h = Addr d l \<longrightarrow>
            (\<exists>st'. allocate cfg st n = Inr (Addr d (l + int (DEBUG_OFFSET cfg)), st') \<and>
                   array_get (freeMem st') k = getNext (mem st (d, l)) \<and>
                   freePtr st' = freePtr st \<and> endFree st' = endFree st \<and>
                   memPool st' = memPool st \<and> created st' = created st))
       \<and> (h = nullptr \<and> i + int k \<le> j \<longrightarrow>
            (\<exists>st'. allocate cfg st n = Inr (Addr c (i + int (DEBUG_OFFSET cfg)), st') \<and>
                   freePtr st' = Addr c (i + int k) \<and> endFree st' = endFree st \<and>
                   freeMem st' = freeMem st \<and>
                   memPool st' = memPool st \<and> created st' = created st))
       \<and> (h = nullptr \<and> \<not> i + int k \<le> j \<longrightarrow>
            (\<exists>st'. allocate cfg st n = Inr (Addr (created st) (int (DEBUG_OFFSET cfg)), st') \<and>
                   memPool st' = created st \<and> pool_next st' (created st) = Some (memPool st) \<and>
                   created st' = Suc (created st) \<and> live st' = insert (created st) (live st) \<and>
                   freePtr st' = Addr (created st) (int k) \<and>
                   endFree st' = pool_end cfg (created st)))"
proof (intro conjI allI impI)
  fix d l assume "h = Addr d l"
  then show "\<exists>st'. allocate cfg st n = Inr (Addr d (l + int (DEBUG_OFFSET cfg)), st') \<and>
                   array_get (freeMem st') k = getNext (mem st (d, l)) \<and>
                   freePtr st' = freePtr st \<and> endFree st' = endFree st \<and>
                   memPool st' = memPool st \<and> created st' = created st"
    using assms
    by (simp add: allocate_cases [where c = c and i = i and j = j] Let_def allocate_reuse_Addr getNext_def)
next
  assume "h = nullptr \<and> i + int k \<le> j"
  then show "\<exists>st'. allocate cfg st n = Inr (Addr c (i + int (DEBUG_OFFSET cfg)), st') \<and>
                   freePtr st' = Addr c (i + int k) \<and> endFree st' = endFree st \<and>
                   freeMem st' = freeMem st \<and>
                   memPool st' = memPool st \<and> created st' = created st"
    using assms
    by (simp add: allocate_cases [where c = c and i = i and j = j] Let_def)
next
  assume "h = nullptr \<and> \<not> i + int k \<le> j"
  then show "\<exists>st'. allocate cfg st n = Inr (Addr (created st) (int (DEBUG_OFFSET cfg)), st') \<and>
                   memPool st' = created st \<and> pool_next st' (created st) = Some (memPool st) \<and>
                   created st' = Suc (created st) \<and> live st' = insert (created st) (live st) \<and>
                   freePtr st' = Addr (created st) (int k) \<and>
                   endFree st' = pool_end cfg (created st)"
    using assms
    by (simp add: allocate_cases [where c = c and i = i and j = j] Let_def
        allocate_extend_Addr [where c = c and j = j] pool_end_def)
qed

theorem C6_allocate_order_witness:
  "(\<exists>st'. allocate release32 st_ABC 2 = Inr (Addr 0 6, st') \<and> array_get (freeMem st') 2 = Num 0 \<and>
          freePtr st' = Addr 1 3 \<and> memPool st' = 1)
   \<and> (\<exists>st'. allocate release32 st_A 3 = Inr (Addr 0 0, st') \<and> freePtr st' = Addr 0 3 \<and> memPool st' = 0)
   \<and> (\<exists>st'. allocate release32 st_AB 3 = Inr (Addr 1 0, st') \<and> memPool st' = 1 \<and>
          pool_next st' 1 = Some 0 \<and> freePtr st' = Addr 1 3 \<and> endFree st' = Addr 1 8)"
proof -
  have reuse: "\<exists>st'. allocate release32 st_ABC 2 = Inr (Addr 0 6, st') \<and>
      array_get (freeMem st') 2 = Num 0 \<and> freePtr st' = Addr 1 3 \<and> memPool st' = 1"
    using C6_allocate_order [of 2 release32 st_ABC 1 3 8 2 "Addr 0 6"]
    by (auto simp add: block_words_simps DEBUG_OFFSET_def getNext_def)
  have bump: "\<exists>st'. allocate release32 st_A 3 = Inr (Addr 0 0, st') \<and>
      freePtr st' = Addr 0 3 \<and> memPool st' = 0"
    using C6_allocate_order [of 3 release32 st_A 0 0 8 3 nullptr]
    by (auto simp add: block_words_simps DEBUG_OFFSET_def nullptr_def)
  have extend: "\<exists>st'. allocate release32 st_AB 3 = Inr (Addr 1 0, st') \<and> memPool st' = 1 \<and>
      pool_next st' 1 = Some 0 \<and> freePtr st' = Addr 1 3 \<and> endFree st' = Addr 1 8"
    using C6_allocate_order [of 3 release32 st_AB 0 6 8 3 nullptr]
    by (auto simp add: block_words_simps DEBUG_OFFSET_def nullptr_def pool_end_def)
  from reuse bump extend show ?thesis by blast
qed

text \<open>
  Claim C7. \<open>deallocate(ptr, n)\<close> with \<open>n\<close> not zero and \<open>ptr\<close> an address in a pool, for a
  block of \<open>k = block_words cfg n\<close> words that starts at \<open>data = ptr - DEBUG_OFFSET\<close>: the
  call returns, and if the block ends exactly at the cursor, the cursor retreats to the
  start of the block and nothing else changes, so the block is on no free list; in every
  other case the block becomes the head of the free list of class \<open>k\<close>, its first word
  holding the link to the previous head, and the cursor stays. In the release
  configuration this holds in every state. In the debug configuration the assertions of
  \<open>deallocate\<close> check that the block is one that was handed out (\<open>handed_out\<close>), and it
  holds for such a block; every block that \<open>allocate\<close> returned and that was not released
  since is one (\<open>allocate_keeps_ok\<close>, \<open>allocator_ok_handed_out\<close>), so that the release of
  such a block returns (\<open>deallocate_keeps_ok\<close>).
\<close>

theorem C7_deallocate_tail_or_list:
  assumes "n \<noteq> 0" "ptr = Addr c i" "k = block_words cfg n"
    and "data = Addr c (i - int (DEBUG_OFFSET cfg))"
    and "debug cfg \<Longrightarrow> handed_out cfg st ps fs (c, i - 1) k"
  shows "deallocate cfg st ptr n =
           Some (Inr (if ptr_add cfg data (int k) = freePtr st
                      then st\<lparr>freePtr := data\<rparr>
                      else st\<lparr>freeMem := array_set (freeMem st) k data,
                              mem := (mem st)((c, i - int (DEBUG_OFFSET cfg)) :=
                                        getNext (array_get (freeMem st) k))\<rparr>))"
  using assms by (rule deallocate_handed_out)

theorem C7_deallocate_tail_or_list_witness:
  "deallocate release32 st_ABC (Addr 1 0) 3 = Some (Inr (st_ABC\<lparr>freePtr := Addr 1 0\<rparr>))
   \<and> deallocate release32 st_ABC (Addr 0 0) 3 =
       Some (Inr (st_ABC\<lparr>freeMem := array_set (freeMem st_ABC) 3 (Addr 0 0),
                         mem := (mem st_ABC)((0, 0) := Num 0)\<rparr>))
   \<and> handed_out debug32 st_debug_AB [0] [] (0, 4) 4
   \<and> deallocate debug32 st_debug_AB (Addr 0 5) 3 = Some (Inr (st_debug_AB\<lparr>freePtr := Addr 0 4\<rparr>))
   \<and> handed_out debug32 st_debug_AB [0] [] (0, 0) 4
   \<and> deallocate debug32 st_debug_AB (Addr 0 1) 3 =
       Some (Inr (st_debug_AB\<lparr>freeMem := array_set (freeMem st_debug_AB) 4 (Addr 0 0),
                              mem := (mem st_debug_AB)((0, 0) := Num 0)\<rparr>))"
proof -
  have three: "(3::nat) \<noteq> 0" by simp
  have tail: "deallocate release32 st_ABC (Addr 1 0) 3 = Some (Inr (st_ABC\<lparr>freePtr := Addr 1 0\<rparr>))"
    using C7_deallocate_tail_or_list [OF three refl refl refl, where c = 1 and i = 0
        and cfg = release32 and st = st_ABC and ps = "[]" and fs = "[]"]
    by (simp add: block_words_simps DEBUG_OFFSET_def)
  have push: "deallocate release32 st_ABC (Addr 0 0) 3 =
       Some (Inr (st_ABC\<lparr>freeMem := array_set (freeMem st_ABC) 3 (Addr 0 0),
                         mem := (mem st_ABC)((0, 0) := Num 0)\<rparr>))"
    using C7_deallocate_tail_or_list [OF three refl refl refl, where c = 0 and i = 0
        and cfg = release32 and st = st_ABC and ps = "[]" and fs = "[]"]
    by (simp add: block_words_simps DEBUG_OFFSET_def getNext_def)
  have h1: "handed_out debug32 st_debug_AB [0] [] (0, 4) 4"
    by (simp add: handed_out_def in_pools_def within_def pool_mem_def nullptr_def)
  have h2: "handed_out debug32 st_debug_AB [0] [] (0, 0) 4"
    by (simp add: handed_out_def in_pools_def within_def pool_mem_def nullptr_def)
  have dtail: "deallocate debug32 st_debug_AB (Addr 0 5) 3 =
      Some (Inr (st_debug_AB\<lparr>freePtr := Addr 0 4\<rparr>))"
    using C7_deallocate_tail_or_list [OF three refl refl refl, where c = 0 and i = 5
        and cfg = debug32 and st = st_debug_AB and ps = "[0]" and fs = "[]"] h1
    by (simp add: block_words_simps DEBUG_OFFSET_def)
  have dpush: "deallocate debug32 st_debug_AB (Addr 0 1) 3 =
       Some (Inr (st_debug_AB\<lparr>freeMem := array_set (freeMem st_debug_AB) 4 (Addr 0 0),
                              mem := (mem st_debug_AB)((0, 0) := Num 0)\<rparr>))"
    using C7_deallocate_tail_or_list [OF three refl refl refl, where c = 0 and i = 1
        and cfg = debug32 and st = st_debug_AB and ps = "[0]" and fs = "[]"] h2
    by (simp add: block_words_simps DEBUG_OFFSET_def getNext_def)
  from tail push h1 dtail h2 dpush show ?thesis by simp
qed

text \<open>
  Claim C8, as amended. For a size \<open>n\<close> with \<open>0 < n \<le> CHUNK_SIZE\<close> whose block of
  \<open>k = block_words cfg n\<close> words fits in a pool, both strategies return a fresh usable
  buffer, and the matching release gives it back. The constructor establishes the
  invariant of the allocator, and requests in this range, releases of blocks handed out
  and \<open>reset\<close> keep it (\<open>reachable_allocator_ok\<close>).
  \<^item> In a state that satisfies the invariant with the set \<open>out\<close> of blocks handed out,
    \<open>base_allocate\<close> returns the address of a block of \<open>k\<close> words (behind its header in the
    debug configuration) that lies inside a live pool and shares no word with a block
    handed out; the new state satisfies the invariant with the block added to \<open>out\<close>, so
    the block shares no word with a block on a free list either, and a later request
    in the range is not given any of its words. \<open>base_deallocate\<close> of that address and size
    returns, in the debug configuration too; the state it leaves satisfies the
    invariant with the set \<open>out\<close> as it was before, and the block is at the cursor or at
    the head of the free list of its class, where a later request finds it.
  \<^item> \<open>base_new\<close> returns the address of a new array object, which is live afterwards,
    and \<open>base_delete\<close> of that address deletes the object.

  Outside this range the two are not interchangeable, which the counterexample shows
  on three inputs: at size 0 \<open>base_allocate\<close> returns the null pointer and changes nothing
  while \<open>base_new\<close> returns a new array; at a size above \<open>CHUNK_SIZE\<close> the debug
  configuration stops \<open>base_allocate\<close> at the assertion of line 78 while \<open>base_new\<close> returns
  a new array; and in the 32-bit debug configuration at size \<open>CHUNK_SIZE\<close> the block of
  \<open>base_allocate\<close> is one word longer than its pool (\<open>allocate_debug32_overrun\<close>).
\<close>

theorem C8_strategies:
  assumes "config_ok cfg" "0 < n" "n \<le> CHUNK_SIZE cfg" "k = block_words cfg n"
    and "k \<le> CHUNK_SIZE cfg" "allocator_ok cfg st ps fl out" "heap_ok h"
  shows "(\<exists>c i st1 ps1 fl1.
            base_allocate cfg n st = Inr (Addr c (i + int (DEBUG_OFFSET cfg)), st1) \<and>
            c \<in> live st1 \<and> 0 \<le> i \<and> i + int k \<le> int (CHUNK_SIZE cfg) \<and>
            (c, i, k) \<notin> out \<and> (\<forall>b \<in> out. \<not> overlap (c, i, k) b) \<and>
            allocator_ok cfg st1 ps1 fl1 (insert (c, i, k) out) \<and>
            (\<forall>n'. 0 < n' \<and> n' \<le> CHUNK_SIZE cfg \<and> block_words cfg n' \<le> CHUNK_SIZE cfg \<longrightarrow>
               (\<exists>c' i' st3. base_allocate cfg n' st1 =
                                Inr (Addr c' (i' + int (DEBUG_OFFSET cfg)), st3) \<and>
                              \<not> overlap (c', i', block_words cfg n') (c, i, k))) \<and>
            (\<exists>st2 fl2. base_deallocate cfg (Addr c (i + int (DEBUG_OFFSET cfg))) n st1 = Some (Inr st2) \<and>
                       allocator_ok cfg st2 ps1 fl2 out \<and>
                       (freePtr st2 = Addr c i \<or> array_get (freeMem st2) k = Addr c i)))
         \<and> (\<exists>a h1. base_new cfg n h = Inr (Addr a 0, h1) \<and> a \<notin> live h \<and>
                    live h1 = insert a (live h) \<and>
                    base_delete (Addr a 0) n h1 = Inr (h1\<lparr>live := live h\<rparr>))"
proof
  have kpos: "0 < k" using block_words_pos [OF assms(1,2,3)] assms(4) by simp
  obtain c i st1 ps1 fl1 where
    al: "allocate cfg st n = Inr (Addr c (i + int (DEBUG_OFFSET cfg)), st1)" and
    ok1: "allocator_ok cfg st1 ps1 fl1 (insert (c, i, k) out)" and new: "(c, i, k) \<notin> out"
    using allocate_keeps_ok [OF assms(6,2) disjI1 [OF assms(3)] assms(4) kpos assms(5)] by blast
  have al': "base_allocate cfg n st = Inr (Addr c (i + int (DEBUG_OFFSET cfg)), st1)"
    using al by (simp add: base_allocate_def)
  have use: "c \<in> live st1" "0 \<le> i" "i + int k \<le> int (CHUNK_SIZE cfg)"
    using allocator_ok_usable [OF ok1, of c i k] by simp_all
  have fresh: "\<forall>b \<in> out. \<not> overlap (c, i, k) b"
    using allocator_ok_fresh [OF ok1 new] by blast
  have nxt: "\<forall>n'. 0 < n' \<and> n' \<le> CHUNK_SIZE cfg \<and> block_words cfg n' \<le> CHUNK_SIZE cfg \<longrightarrow>
               (\<exists>c' i' st3. base_allocate cfg n' st1 =
                                Inr (Addr c' (i' + int (DEBUG_OFFSET cfg)), st3) \<and>
                              \<not> overlap (c', i', block_words cfg n') (c, i, k))"
    using allocate_next_disjoint [OF assms(1) ok1, of "(c, i, k)"]
    by (simp add: base_allocate_def)
  have n0: "n \<noteq> 0" using assms(2) by simp
  have "insert (c, i, k) out - {(c, i, k)} = out" using new by blast
  then obtain st2 fl2 where
    d1: "base_deallocate cfg (Addr c (i + int (DEBUG_OFFSET cfg))) n st1 = Some (Inr st2)" and
    d2: "allocator_ok cfg st2 ps1 fl2 out" and
    d3: "freePtr st2 = Addr c i \<or> array_get (freeMem st2) k = Addr c i"
    using deallocate_keeps_ok [OF ok1 _ n0 assms(4), of c i]
    by (auto simp add: base_deallocate_def)
  show "\<exists>c i st1 ps1 fl1.
            base_allocate cfg n st = Inr (Addr c (i + int (DEBUG_OFFSET cfg)), st1) \<and>
            c \<in> live st1 \<and> 0 \<le> i \<and> i + int k \<le> int (CHUNK_SIZE cfg) \<and>
            (c, i, k) \<notin> out \<and> (\<forall>b \<in> out. \<not> overlap (c, i, k) b) \<and>
            allocator_ok cfg st1 ps1 fl1 (insert (c, i, k) out) \<and>
            (\<forall>n'. 0 < n' \<and> n' \<le> CHUNK_SIZE cfg \<and> block_words cfg n' \<le> CHUNK_SIZE cfg \<longrightarrow>
               (\<exists>c' i' st3. base_allocate cfg n' st1 =
                                Inr (Addr c' (i' + int (DEBUG_OFFSET cfg)), st3) \<and>
                              \<not> overlap (c', i', block_words cfg n') (c, i, k))) \<and>
            (\<exists>st2 fl2. base_deallocate cfg (Addr c (i + int (DEBUG_OFFSET cfg))) n st1 = Some (Inr st2) \<and>
                       allocator_ok cfg st2 ps1 fl2 out \<and>
                       (freePtr st2 = Addr c i \<or> array_get (freeMem st2) k = Addr c i))"
    by (intro exI conjI) (rule al' use new fresh ok1 nxt d1 d2 d3)+
next
  have "4 * n \<le> word_bytes cfg * CHUNK_SIZE cfg"
    using assms(3) by (cases "arch cfg") (simp_all add: word_bytes_def)
  then have small: "4 * n < 2 ^ word_bits cfg" using assms(1) by (simp add: config_ok_def)
  have "created h \<notin> live h" using assms(7) by (auto simp add: heap_ok_def)
  then show "\<exists>a h1. base_new cfg n h = Inr (Addr a 0, h1) \<and> a \<notin> live h \<and>
                    live h1 = insert a (live h) \<and>
                    base_delete (Addr a 0) n h1 = Inr (h1\<lparr>live := live h\<rparr>)"
    using small by (simp add: base_new_def new_object_def base_delete_def delete_object_def)
qed

theorem C8_strategies_counterexample:
  "base_allocate release32 0 st_A = Inr (nullptr, st_A)
   \<and> base_new release32 0 heap0 = Inr (Addr 0 0, heap0\<lparr>created := 1, live := {0}\<rparr>)
   \<and> Addr 0 0 \<noteq> nullptr
   \<and> base_allocate debug32 9 st_A = Inl (AssertFailed 78)
   \<and> base_new debug32 9 heap0 = Inr (Addr 0 0, heap0\<lparr>created := 1, live := {0}\<rparr>)
   \<and> (\<exists>st'. base_allocate debug32 8 st_A = Inr (Addr 1 1, st') \<and>
             freePtr st' = Addr 1 9 \<and> endFree st' = Addr 1 8)"
proof -
  have "\<exists>st'. base_allocate debug32 8 st_A = Inr (Addr 1 1, st') \<and>
             freePtr st' = Addr 1 9 \<and> endFree st' = Addr 1 8"
    using allocate_debug32_overrun by (auto simp add: base_allocate_def)
  then show ?thesis
    by (simp add: base_allocate_def allocate_def base_new_def new_object_def heap0_def nullptr_def
        word_bits_def)
qed

theorem C8_strategies_witness:
  "(\<exists>c i st1 ps1 fl1.
       base_allocate release32 2 st_ABC = Inr (Addr c i, st1) \<and> c \<in> live st1 \<and>
       0 \<le> i \<and> i + 2 \<le> 8 \<and>
       \<not> overlap (c, i, 2) (0, 0, 3) \<and> \<not> overlap (c, i, 2) (0, 3, 3) \<and> \<not> overlap (c, i, 2) (1, 0, 3) \<and>
       allocator_ok release32 st1 ps1 fl1 {(c, i, 2), (0, 0, 3), (0, 3, 3), (1, 0, 3)} \<and>
       (\<exists>c' i' st3. base_allocate release32 2 st1 = Inr (Addr c' i', st3) \<and>
                     \<not> overlap (c', i', 2) (c, i, 2)) \<and>
       (\<exists>st2 fl2. base_deallocate release32 (Addr c i) 2 st1 = Some (Inr st2) \<and>
                  allocator_ok release32 st2 ps1 fl2 {(0, 0, 3), (0, 3, 3), (1, 0, 3)} \<and>
                  (freePtr st2 = Addr c i \<or> array_get (freeMem st2) 2 = Addr c i)))
   \<and> (\<exists>c i st1 ps1 fl1.
       base_allocate debug32 3 st_debug_AB = Inr (Addr c (i + 1), st1) \<and> c \<in> live st1 \<and>
       0 \<le> i \<and> i + 4 \<le> 8 \<and>
       \<not> overlap (c, i, 4) (0, 0, 4) \<and> \<not> overlap (c, i, 4) (0, 4, 4) \<and>
       allocator_ok debug32 st1 ps1 fl1 {(c, i, 4), (0, 0, 4), (0, 4, 4)} \<and>
       (\<exists>c' i' st3. base_allocate debug32 3 st1 = Inr (Addr c' (i' + 1), st3) \<and>
                     \<not> overlap (c', i', 4) (c, i, 4)) \<and>
       (\<exists>st2 fl2. base_deallocate debug32 (Addr c (i + 1)) 3 st1 = Some (Inr st2) \<and>
                  allocator_ok debug32 st2 ps1 fl2 {(0, 0, 4), (0, 4, 4)} \<and>
                  (freePtr st2 = Addr c i \<or> array_get (freeMem st2) 4 = Addr c i)))
   \<and> (\<exists>a h1. base_new release32 2 heap0 = Inr (Addr a 0, h1) \<and>
              base_delete (Addr a 0) 2 h1 = Inr (h1\<lparr>live := {}\<rparr>))"
proof -
  have h0: "heap_ok heap0" "live heap0 = {}"
    by (simp_all add: heap_ok_def heap0_def)
  have c32: "config_ok release32" "config_ok debug32"
    by (simp_all add: config_ok_def word_bytes_def word_bits_def)
  have k32: "2 = block_words release32 2" "4 = block_words debug32 3"
    by (simp_all add: block_words_simps)
  have sz: "0 < (2::nat)" "2 \<le> CHUNK_SIZE release32" "0 < (3::nat)" "3 \<le> CHUNK_SIZE debug32"
    "4 \<le> CHUNK_SIZE debug32"
    by simp_all
  note r = C8_strategies [OF c32(1) sz(1,2) k32(1) sz(2) st_ABC_allocator_ok h0(1)]
  note d = C8_strategies [OF c32(2) sz(3,4) k32(2) sz(5) st_debug_AB_allocator_ok h0(1)]
  have pooled32: "\<exists>c i st1 ps1 fl1.
       base_allocate release32 2 st_ABC = Inr (Addr c i, st1) \<and> c \<in> live st1 \<and>
       0 \<le> i \<and> i + 2 \<le> 8 \<and>
       \<not> overlap (c, i, 2) (0, 0, 3) \<and> \<not> overlap (c, i, 2) (0, 3, 3) \<and> \<not> overlap (c, i, 2) (1, 0, 3) \<and>
       allocator_ok release32 st1 ps1 fl1 {(c, i, 2), (0, 0, 3), (0, 3, 3), (1, 0, 3)} \<and>
       (\<exists>c' i' st3. base_allocate release32 2 st1 = Inr (Addr c' i', st3) \<and>
                     \<not> overlap (c', i', 2) (c, i, 2)) \<and>
       (\<exists>st2 fl2. base_deallocate release32 (Addr c i) 2 st1 = Some (Inr st2) \<and>
                  allocator_ok release32 st2 ps1 fl2 {(0, 0, 3), (0, 3, 3), (1, 0, 3)} \<and>
                  (freePtr st2 = Addr c i \<or> array_get (freeMem st2) 2 = Addr c i))"
  proof -
    from r [THEN conjunct1] obtain c i st1 ps1 fl1 where
      a: "base_allocate release32 2 st_ABC = Inr (Addr c (i + int (DEBUG_OFFSET release32)), st1)"
        "c \<in> live st1" "0 \<le> i" "i + int 2 \<le> int (CHUNK_SIZE release32)"
        "\<forall>b \<in> {(0, 0, 3), (0, 3, 3), (1, 0, 3)}. \<not> overlap (c, i, 2) b"
        "allocator_ok release32 st1 ps1 fl1 (insert (c, i, 2) {(0, 0, 3), (0, 3, 3), (1, 0, 3)})" and
      n: "\<forall>n'. 0 < n' \<and> n' \<le> CHUNK_SIZE release32 \<and> block_words release32 n' \<le> CHUNK_SIZE release32 \<longrightarrow>
               (\<exists>c' i' st3. base_allocate release32 n' st1 =
                                Inr (Addr c' (i' + int (DEBUG_OFFSET release32)), st3) \<and>
                              \<not> overlap (c', i', block_words release32 n') (c, i, 2))" and
      e: "\<exists>st2 fl2. base_deallocate release32 (Addr c (i + int (DEBUG_OFFSET release32))) 2 st1 = Some (Inr st2) \<and>
                       allocator_ok release32 st2 ps1 fl2 {(0, 0, 3), (0, 3, 3), (1, 0, 3)} \<and>
                       (freePtr st2 = Addr c i \<or> array_get (freeMem st2) 2 = Addr c i)"
      by (elim exE conjE) (rule that; (assumption | (intro exI conjI; assumption)))
    have n2: "\<exists>c' i' st3. base_allocate release32 2 st1 = Inr (Addr c' i', st3) \<and>
                     \<not> overlap (c', i', 2) (c, i, 2)"
      using n [THEN spec, of 2] by (simp add: DEBUG_OFFSET_def block_words_simps)
    show ?thesis
      using a e n2 by (simp add: DEBUG_OFFSET_def) blast
  qed
  have pooled_debug: "\<exists>c i st1 ps1 fl1.
       base_allocate debug32 3 st_debug_AB = Inr (Addr c (i + 1), st1) \<and> c \<in> live st1 \<and>
       0 \<le> i \<and> i + 4 \<le> 8 \<and>
       \<not> overlap (c, i, 4) (0, 0, 4) \<and> \<not> overlap (c, i, 4) (0, 4, 4) \<and>
       allocator_ok debug32 st1 ps1 fl1 {(c, i, 4), (0, 0, 4), (0, 4, 4)} \<and>
       (\<exists>c' i' st3. base_allocate debug32 3 st1 = Inr (Addr c' (i' + 1), st3) \<and>
                     \<not> overlap (c', i', 4) (c, i, 4)) \<and>
       (\<exists>st2 fl2. base_deallocate debug32 (Addr c (i + 1)) 3 st1 = Some (Inr st2) \<and>
                  allocator_ok debug32 st2 ps1 fl2 {(0, 0, 4), (0, 4, 4)} \<and>
                  (freePtr st2 = Addr c i \<or> array_get (freeMem st2) 4 = Addr c i))"
  proof -
    from d [THEN conjunct1] obtain c i st1 ps1 fl1 where
      a: "base_allocate debug32 3 st_debug_AB = Inr (Addr c (i + int (DEBUG_OFFSET debug32)), st1)"
        "c \<in> live st1" "0 \<le> i" "i + int 4 \<le> int (CHUNK_SIZE debug32)"
        "\<forall>b \<in> {(0, 0, 4), (0, 4, 4)}. \<not> overlap (c, i, 4) b"
        "allocator_ok debug32 st1 ps1 fl1 (insert (c, i, 4) {(0, 0, 4), (0, 4, 4)})" and
      n: "\<forall>n'. 0 < n' \<and> n' \<le> CHUNK_SIZE debug32 \<and> block_words debug32 n' \<le> CHUNK_SIZE debug32 \<longrightarrow>
               (\<exists>c' i' st3. base_allocate debug32 n' st1 =
                                Inr (Addr c' (i' + int (DEBUG_OFFSET debug32)), st3) \<and>
                              \<not> overlap (c', i', block_words debug32 n') (c, i, 4))" and
      e: "\<exists>st2 fl2. base_deallocate debug32 (Addr c (i + int (DEBUG_OFFSET debug32))) 3 st1 = Some (Inr st2) \<and>
                       allocator_ok debug32 st2 ps1 fl2 {(0, 0, 4), (0, 4, 4)} \<and>
                       (freePtr st2 = Addr c i \<or> array_get (freeMem st2) 4 = Addr c i)"
      by (elim exE conjE) (rule that; (assumption | (intro exI conjI; assumption)))
    have n2: "\<exists>c' i' st3. base_allocate debug32 3 st1 = Inr (Addr c' (i' + 1), st3) \<and>
                     \<not> overlap (c', i', 4) (c, i, 4)"
      using n [THEN spec, of 3] by (simp add: DEBUG_OFFSET_def block_words_simps)
    show ?thesis
      using a e n2 by (simp add: DEBUG_OFFSET_def) blast
  qed
  have pass: "\<exists>a h1. base_new release32 2 heap0 = Inr (Addr a 0, h1) \<and>
              base_delete (Addr a 0) 2 h1 = Inr (h1\<lparr>live := {}\<rparr>)"
    using r [THEN conjunct2] h0(2) by simp blast
  from pooled32 pooled_debug pass show ?thesis by (intro conjI)
qed

text \<open>
  Claim C9. \<open>allocate(0)\<close> returns the null pointer and leaves the allocator as it was,
  and \<open>deallocate(ptr, 0)\<close> leaves the allocator as it was, for every pointer, state and
  build configuration; neither aborts.
\<close>

theorem C9_zero_size_noop:
  "allocate cfg st 0 = Inr (nullptr, st) \<and> deallocate cfg st ptr 0 = Some (Inr st)"
  by (simp add: allocate_def deallocate_def)

text \<open>
  Claim C10. In a state whose cursor and end of free space are addresses in one pool
  object and whose table holds null or addresses, \<open>allocate(n)\<close> with
  \<open>0 < n \<le> CHUNK_SIZE\<close> returns, and the pointer it returns is not null; by claim C9 the
  null pointer is what a request of size 0 gets. The constructor makes the cursor and the
  end of free space addresses in one pool object and every operation keeps them so
  (\<open>cursor_ok_new\<close>, \<open>cursor_ok_allocate\<close>, \<open>cursor_ok_deallocate\<close>, \<open>cursor_ok_reset\<close>).
  Creating a pool always succeeds in the model.
\<close>

theorem C10_allocate_nonnull:
  assumes "cursor_ok st" "heads_ok st" "0 < n" "n \<le> CHUNK_SIZE cfg"
  shows "\<exists>p st'. allocate cfg st n = Inr (p, st') \<and> p \<noteq> nullptr"
  using assms by (rule allocate_returns_nonnull)

theorem C10_allocate_nonnull_witness:
  "\<exists>p st'. allocate debug64 st_ABC 8 = Inr (p, st') \<and> p \<noteq> nullptr"
  using C10_allocate_nonnull [of st_ABC 8 debug64]
  by (simp add: st_ABC_def cursor_ok_def heads_ok_def list_all_length nth_list_update nullptr_def is_Addr_def)

end
